theory Spec2Isabelle
  imports Complex_Main "HOL-Library.AList"
begin

section \<open>JavaScript values\<close>

text \<open>
  The values that flow through the registry, the factory and the command line: the
  primitive values of the language and references to objects. Numbers are the integral
  ones (ports, timestamps in milliseconds), of a size a number holds exactly and prints as
  a plain decimal numeral; an object or function is a reference named by a label, and two
  references are the same object exactly when the labels agree.
\<close>

datatype jsval =
    JUndefined
  | JNull
  | JBool bool
  | JNum int
  | JStr string
  | JRef string

text \<open>\<open>!v\<close> is \<open>\<not> truthy v\<close>: the falsy values are undefined, null, false, 0 and the empty string.\<close>

fun truthy :: "jsval \<Rightarrow> bool" where
  "truthy JUndefined = False"
| "truthy JNull = False"
| "truthy (JBool b) = b"
| "truthy (JNum n) = (n \<noteq> 0)"
| "truthy (JStr s) = (s \<noteq> [])"
| "truthy (JRef r) = True"

text \<open>\<open>a || b\<close>.\<close>

definition js_or :: "jsval \<Rightarrow> jsval \<Rightarrow> jsval" where
  "js_or a b = (if truthy a then a else b)"

text \<open>Decimal digits of a natural number, most significant first.\<close>

fun show_nat :: "nat \<Rightarrow> string" where
  "show_nat n = (if n < 10 then [''0123456789'' ! n]
                 else show_nat (n div 10) @ [''0123456789'' ! (n mod 10)])"

declare show_nat.simps [simp del]

definition show_int :: "int \<Rightarrow> string" where
  "show_int i = (if i < 0 then CHR ''-'' # show_nat (nat (- i)) else show_nat (nat i))"

text \<open>
  The string a template literal \<open>`${v}`\<close> puts in place of a value. A reference stands for a
  plain object, which prints as \<open>[object Object]\<close>.
\<close>

fun to_string :: "jsval \<Rightarrow> string" where
  "to_string JUndefined = ''undefined''"
| "to_string JNull = ''null''"
| "to_string (JBool b) = (if b then ''true'' else ''false'')"
| "to_string (JNum n) = show_int n"
| "to_string (JStr s) = s"
| "to_string (JRef r) = ''[object Object]''"

section \<open>Plain objects\<close>

text \<open>
  An object used as a dictionary is the list of its own properties in insertion order.
  \<open>map_of\<close> reads an own property; \<open>AList.update\<close> is \<open>obj[k] = v\<close> (in place when the
  property exists, appended otherwise); \<open>AList.delete\<close> is \<open>delete obj[k]\<close>;
  \<open>Object.values\<close> and \<open>Object.entries\<close> list the properties in that order. No key written
  by this program is an integer index, so insertion order is the iteration order.

  A read \<open>obj[k]\<close> of an object literal also sees what \<open>Object.prototype\<close> provides.
\<close>

definition object_prototype_keys :: "string list" where
  "object_prototype_keys =
     [''constructor'', ''__defineGetter__'', ''__defineSetter__'', ''hasOwnProperty'',
      ''__lookupGetter__'', ''__lookupSetter__'', ''isPrototypeOf'', ''propertyIsEnumerable'',
      ''toString'', ''valueOf'', ''__proto__'', ''toLocaleString'']"

definition get_prop :: "(string \<times> jsval) list \<Rightarrow> string \<Rightarrow> jsval" where
  "get_prop obj k =
     (case map_of obj k of
        Some v \<Rightarrow> v
      | None \<Rightarrow> if k \<in> set object_prototype_keys then JRef (''Object.prototype.'' @ k)
                else JUndefined)"

text \<open>\<open>{...base, ...opts}\<close>: every own property of \<open>opts\<close> is written over \<open>base\<close>, in order.\<close>

definition spread :: "(string \<times> jsval) list \<Rightarrow> (string \<times> jsval) list \<Rightarrow> (string \<times> jsval) list" where
  "spread base opts = fold (\<lambda>(k, v) acc. AList.update k v acc) opts base"

section \<open>Service registry (services/ServiceRegistry.js)\<close>

record ServiceEntry =
  name :: jsval
  host :: jsval
  port :: jsval
  url :: string
  timestamp :: int
  metadata :: jsval
  key :: string

record ServiceRegistry =
  services :: "(string \<times> ServiceEntry) list"
  timeout :: int
  cleanupInterval :: int

datatype error =
    InvalidArgument     \<comment> \<open>Service registration requires name, host, and port\<close>
  | TypeRequired        \<comment> \<open>Service type is required\<close>
  | UnsupportedType string  \<comment> \<open>Unsupported service type: ...\<close>
  | BrokerUnavailable   \<comment> \<open>Message broker channel not available\<close>
  | ModuleError string  \<comment> \<open>require() could not load what it was given\<close>
  | OtherError string

text \<open>
  The constructor: \<open>options.timeout || 30000\<close> and \<open>options.cleanupInterval || 300000\<close>,
  an option that was not given being \<open>None\<close>.
\<close>

definition option_or :: "int option \<Rightarrow> int \<Rightarrow> int" where
  "option_or v d = (case v of None \<Rightarrow> d | Some x \<Rightarrow> if x \<noteq> 0 then x else d)"

definition new_ServiceRegistry :: "int option \<Rightarrow> int option \<Rightarrow> ServiceRegistry" where
  "new_ServiceRegistry opt_timeout opt_cleanupInterval =
     \<lparr> services = [],
       timeout = option_or opt_timeout 30000,
       cleanupInterval = option_or opt_cleanupInterval 300000 \<rparr>"

definition generateKey :: "jsval \<Rightarrow> jsval \<Rightarrow> jsval \<Rightarrow> string" where
  "generateKey n h p = to_string n @ '':'' @ to_string h @ '':'' @ to_string p"

text \<open>
  \<open>register\<close> at time \<open>now\<close> (the value of \<open>Date.now()\<close>). The result is what the call returns
  or throws, paired with the registry afterwards.
\<close>

definition register ::
  "ServiceRegistry \<Rightarrow> int \<Rightarrow> jsval \<Rightarrow> jsval \<Rightarrow> jsval \<Rightarrow> jsval
     \<Rightarrow> (error + ServiceEntry) \<times> ServiceRegistry" where
  "register r now n h p md =
     (if \<not> truthy n \<or> \<not> truthy h \<or> \<not> truthy p then (Inl InvalidArgument, r)
      else
        let k = generateKey n h p in
        case map_of (services r) k of
          Some existing \<Rightarrow>
            let renewed = existing\<lparr>timestamp := now\<rparr>
            in (Inr renewed, r\<lparr>services := AList.update k renewed (services r)\<rparr>)
        | None \<Rightarrow>
            let service = \<lparr> name = n, host = h, port = p,
                            url = ''http://'' @ to_string h @ '':'' @ to_string p,
                            timestamp = now,
                            metadata = (if md = JUndefined then JRef ''{}'' else md),
                            key = k \<rparr>
            in (Inr service, r\<lparr>services := AList.update k service (services r)\<rparr>))"

definition unregister ::
  "ServiceRegistry \<Rightarrow> jsval \<Rightarrow> jsval \<Rightarrow> jsval \<Rightarrow> bool \<times> ServiceRegistry" where
  "unregister r n h p =
     (let k = generateKey n h p in
      case map_of (services r) k of
        Some existing \<Rightarrow> (True, r\<lparr>services := AList.delete k (services r)\<rparr>)
      | None \<Rightarrow> (False, r))"

definition getAll :: "ServiceRegistry \<Rightarrow> ServiceEntry list" where
  "getAll r = map snd (services r)"

definition findAll :: "ServiceRegistry \<Rightarrow> int \<Rightarrow> jsval \<Rightarrow> ServiceEntry list" where
  "findAll r now n =
     filter (\<lambda>service. if now - timestamp service > timeout r then False
                        else name service = n)
            (map snd (services r))"

text \<open>
  What a lookup hands back: \<open>null\<close>, \<open>undefined\<close> (an array read out of range) or a value.
\<close>

datatype 'a lookup = Null | Undefined | Value 'a

definition array_get :: "'a list \<Rightarrow> int \<Rightarrow> 'a lookup" where
  "array_get xs i = (if 0 \<le> i \<and> i < int (length xs) then Value (xs ! nat i) else Undefined)"

text \<open>
  \<open>find\<close>, with \<open>rnd\<close> the number \<open>Math.random()\<close> returns (at least 0, below 1). The
  product with the length is the exact one; the rounding of the product of two doubles is
  not modelled.
\<close>

definition find_service :: "ServiceRegistry \<Rightarrow> int \<Rightarrow> real \<Rightarrow> jsval \<Rightarrow> ServiceEntry lookup" where
  "find_service r now rnd n =
     (let found = findAll r now n in
      if length found = 0 then Null
      else array_get found \<lfloor>rnd * real (length found)\<rfloor>)"

text \<open>
  One run of the callback that \<open>_startCleanupInterval\<close> hands to \<open>setInterval\<close>, at time
  \<open>now\<close>: it walks a snapshot of the entries and deletes the expired ones from the live
  object, counting them.
\<close>

definition cleanup_step ::
  "int \<Rightarrow> int \<Rightarrow> string \<times> ServiceEntry \<Rightarrow> (string \<times> ServiceEntry) list \<times> nat
     \<Rightarrow> (string \<times> ServiceEntry) list \<times> nat" where
  "cleanup_step now tmo entry acc =
     (if now - timestamp (snd entry) > tmo
      then (AList.delete (fst entry) (fst acc), snd acc + 1)
      else acc)"

definition cleanup :: "ServiceRegistry \<Rightarrow> int \<Rightarrow> ServiceRegistry \<times> nat" where
  "cleanup r now =
     (let (svcs, count) = fold (cleanup_step now (timeout r)) (services r) (services r, 0)
      in (r\<lparr>services := svcs\<rparr>, count))"

text \<open>A run of \<open>register\<close> calls, each with its own time and arguments.\<close>

fun register_calls ::
  "ServiceRegistry \<Rightarrow> (int \<times> jsval \<times> jsval \<times> jsval \<times> jsval) list \<Rightarrow> ServiceRegistry" where
  "register_calls r [] = r"
| "register_calls r ((now, n, h, p, md) # calls) =
     register_calls (snd (register r now n h p md)) calls"

text \<open>Reading a decimal numeral back, and the expiry test of the sweep, for the proofs.\<close>

definition digit_val :: "char \<Rightarrow> nat" where
  "digit_val c = of_char c - 48"

definition read_nat :: "string \<Rightarrow> nat" where
  "read_nat s = foldl (\<lambda>a c. 10 * a + digit_val c) 0 s"

definition expired :: "int \<Rightarrow> int \<Rightarrow> string \<times> ServiceEntry \<Rightarrow> bool" where
  "expired now tmo entry = (now - timestamp (snd entry) > tmo)"

section \<open>Base service runtime (services/BaseService.js)\<close>

text \<open>
  The fields the constructor sets. \<open>queues\<close> and \<open>exchanges\<close> are objects used as
  dictionaries; the registry, the connection and the channel are references.
\<close>

record BaseService =
  service_name :: jsval
  service_port :: jsval
  connection :: jsval
  channel :: jsval
  configPath :: jsval
  env :: jsval
  registry :: jsval
  registryInfo :: "ServiceEntry option"
  isRunning :: bool
  queues :: "(string \<times> jsval) list"
  exchanges :: "(string \<times> jsval) list"

definition new_BaseService :: "(string \<times> jsval) list \<Rightarrow> BaseService" where
  "new_BaseService options =
     \<lparr> service_name = js_or (get_prop options ''name'') (JStr ''unknown-service''),
       service_port = js_or (get_prop options ''port'') (JNum 3000),
       connection = get_prop options ''connection'',
       channel = get_prop options ''channel'',
       configPath = get_prop options ''configPath'',
       env = js_or (get_prop options ''env'') (JStr ''development''),
       registry = get_prop options ''registry'',
       registryInfo = None,
       isRunning = False,
       queues = [],
       exchanges = [] \<rparr>"

text \<open>
  The constructors of \<open>APIService\<close> (services/api) and \<open>OTPService\<close> (services/otp):
  \<open>super({name: config.service.name, port: options.port || config.server.port, ...options})\<close>.
  \<open>config_port\<close> is \<open>config.server.port\<close>, read from the environment with the defaults
  3001 and 3002.
\<close>

definition new_APIService :: "jsval \<Rightarrow> (string \<times> jsval) list \<Rightarrow> BaseService" where
  "new_APIService config_port options =
     new_BaseService
       (spread [(''name'', JStr ''api-service''),
                (''port'', js_or (get_prop options ''port'') config_port)] options)"

definition new_OTPService :: "jsval \<Rightarrow> (string \<times> jsval) list \<Rightarrow> BaseService" where
  "new_OTPService config_port options =
     new_BaseService
       (spread [(''name'', JStr ''otp-service''),
                (''port'', js_or (get_prop options ''port'') config_port)] options)"

subsection \<open>Publishing and consuming\<close>

text \<open>
  A message handed to \<open>publishToQueue\<close>, or decoded for a handler, is a string or some other
  value. What goes through the channel is recorded as the list of the calls made on it.
\<close>

datatype 'j payload = StringValue string | OtherValue 'j

record message =
  content :: string
  deliveryTag :: nat

datatype channel_call =
    AssertQueue string
  | SendToQueue string string
  | Consume string
  | Ack message
  | Nack message bool bool

text \<open>
  \<open>registerQueue\<close>: asserts the queue on the channel and remembers it; throws without a
  channel.
\<close>

definition registerQueue ::
  "BaseService \<Rightarrow> channel_call list \<Rightarrow> string
     \<Rightarrow> (error + jsval) \<times> BaseService \<times> channel_call list" where
  "registerQueue sv calls queueName =
     (if \<not> truthy (channel sv) then (Inl BrokerUnavailable, sv, calls)
      else let queue = JRef (''queue:'' @ queueName)
           in (Inr queue, sv\<lparr>queues := AList.update queueName queue (queues sv)\<rparr>,
               calls @ [AssertQueue queueName]))"

text \<open>
  The bytes \<open>publishToQueue\<close> sends:
  \<open>Buffer.from(typeof message === 'string' ? message : JSON.stringify(message))\<close>.
  \<open>stringify\<close> is \<open>JSON.stringify\<close>, \<open>None\<close> where it throws or yields no string.
\<close>

definition message_content :: "('j \<Rightarrow> string option) \<Rightarrow> 'j payload \<Rightarrow> error + string" where
  "message_content stringify msg =
     (case msg of
        StringValue s \<Rightarrow> Inr s
      | OtherValue j \<Rightarrow>
          (case stringify j of
             Some s \<Rightarrow> Inr s
           | None \<Rightarrow> Inl (OtherError ''message cannot be serialized'')))"

definition publishToQueue ::
  "('j \<Rightarrow> string option) \<Rightarrow> BaseService \<Rightarrow> channel_call list \<Rightarrow> string \<Rightarrow> 'j payload
     \<Rightarrow> (error + bool) \<times> BaseService \<times> channel_call list" where
  "publishToQueue stringify sv calls queueName msg =
     (if \<not> truthy (channel sv) then (Inl BrokerUnavailable, sv, calls)
      else
        let (sv1, calls1) =
              (if \<not> truthy (get_prop (queues sv) queueName)
               then snd (registerQueue sv calls queueName)
               else (sv, calls))
        in case message_content stringify msg of
             Inl e \<Rightarrow> (Inl e, sv1, calls1)
           | Inr bytes \<Rightarrow> (Inr True, sv1, calls1 @ [SendToQueue queueName bytes]))"

text \<open>
  The decoding step of the consumer: \<open>JSON.parse(content)\<close>, and the content itself when
  that throws. \<open>parse\<close> is \<open>JSON.parse\<close>, \<open>None\<close> where it throws.
\<close>

definition decode_content :: "(string \<Rightarrow> 'j payload option) \<Rightarrow> string \<Rightarrow> 'j payload" where
  "decode_content parse bytes =
     (case parse bytes of Some parsedContent \<Rightarrow> parsedContent | None \<Rightarrow> StringValue bytes)"

text \<open>
  The function \<open>consumeFromQueue\<close> installs as the consumer, run on one delivery (\<open>None\<close> is
  the \<open>null\<close> the server sends on cancelling). The result is the calls it makes on the
  channel. The callback returns \<open>Inl\<close> when it throws or rejects.
\<close>

definition on_message ::
  "(string \<Rightarrow> 'j payload option) \<Rightarrow> ('j payload \<Rightarrow> message \<Rightarrow> error + unit) \<Rightarrow> message option
     \<Rightarrow> channel_call list" where
  "on_message parse callback delivery =
     (case delivery of
        None \<Rightarrow> []
      | Some msg \<Rightarrow>
          (case callback (decode_content parse (content msg)) msg of
             Inr _ \<Rightarrow> [Ack msg]
           | Inl _ \<Rightarrow> [Nack msg False True]))"

text \<open>
  \<open>consumeFromQueue\<close>: throws without a channel; otherwise asserts the queue when it is
  not yet registered and subscribes. The result is the consumer it has installed on the
  channel.
\<close>

definition consumeFromQueue ::
  "(string \<Rightarrow> 'j payload option) \<Rightarrow> BaseService \<Rightarrow> channel_call list \<Rightarrow> string
     \<Rightarrow> ('j payload \<Rightarrow> message \<Rightarrow> error + unit)
     \<Rightarrow> (error + (message option \<Rightarrow> channel_call list)) \<times> BaseService \<times> channel_call list" where
  "consumeFromQueue parse sv calls queueName callback =
     (if \<not> truthy (channel sv) then (Inl BrokerUnavailable, sv, calls)
      else
        let (sv1, calls1) =
              (if \<not> truthy (get_prop (queues sv) queueName)
               then snd (registerQueue sv calls queueName)
               else (sv, calls))
        in (Inr (on_message parse callback), sv1, calls1 @ [Consume queueName]))"

text \<open>
  The broker's side of a subscription, as the AMQP protocol defines it: the message at the
  head of the queue is delivered to the consumer; an ack removes it, a nack with requeue
  puts it back where it was, a nack without requeue drops it. \<open>deliveries n\<close> runs \<open>n\<close>
  deliveries and returns the channel calls made and the queue left.
\<close>

fun settle :: "channel_call \<Rightarrow> message list \<Rightarrow> message list" where
  "settle (Ack m) q = remove1 m q"
| "settle (Nack m allUpTo requeue) q = (if requeue then q else remove1 m q)"
| "settle (AssertQueue n) q = q"
| "settle (SendToQueue n b) q = q"
| "settle (Consume n) q = q"

fun deliveries ::
  "nat \<Rightarrow> (string \<Rightarrow> 'j payload option) \<Rightarrow> ('j payload \<Rightarrow> message \<Rightarrow> error + unit)
     \<Rightarrow> message list \<Rightarrow> channel_call list \<times> message list" where
  "deliveries 0 parse callback q = ([], q)"
| "deliveries (Suc n) parse callback [] = ([], [])"
| "deliveries (Suc n) parse callback (m # q) =
     (let calls = on_message parse callback (Some m);
          (later, q') = deliveries n parse callback (fold settle calls (m # q))
      in (calls @ later, q'))"

text \<open>
  The integral numbers as a fragment of the encoding, to have values to run the helpers on:
  \<open>JSON.stringify\<close> of an integer is its decimal numeral and \<open>JSON.parse\<close> reads that
  numeral back. \<open>parse_integer\<close> knows these numerals only; it is used on them and on texts
  that are not JSON at all.
\<close>

definition stringify_integer :: "int \<Rightarrow> string option" where
  "stringify_integer i = Some (show_int i)"

definition parse_integer :: "string \<Rightarrow> int payload option" where
  "parse_integer s =
     (case s of
        [] \<Rightarrow> None
      | c # cs \<Rightarrow>
          if c = CHR ''-''
          then (if cs \<noteq> [] \<and> set cs \<subseteq> set ''0123456789'' \<and> show_nat (read_nat cs) = cs
                   \<and> read_nat cs \<noteq> 0
                then Some (OtherValue (- int (read_nat cs))) else None)
          else (if set s \<subseteq> set ''0123456789'' \<and> show_nat (read_nat s) = s
                then Some (OtherValue (int (read_nat s))) else None))"

section \<open>Service factory (services/ServiceFactory.js)\<close>

record ServiceFactory =
  factory_services :: "(string \<times> BaseService) list"
  factory_registry :: ServiceRegistry

text \<open>
  What a call of \<open>createService\<close> takes from outside the factory: the clock, the outcome of
  loading and connecting the broker configuration (the connection and channel it then
  holds, or the exception), \<open>process.env.NODE_ENV\<close>, the working directory, and the modules
  \<open>require\<close> can load, each a constructor of a service.
\<close>

record environment =
  clock :: int
  broker_connect :: "error + jsval \<times> jsval"
  node_env :: jsval
  cwd :: string
  modules :: "string \<Rightarrow> error + ((string \<times> jsval) list \<Rightarrow> error + BaseService)"

definition new_ServiceFactory :: "int option \<Rightarrow> int option \<Rightarrow> ServiceFactory" where
  "new_ServiceFactory registryTimeout registryCleanupInterval =
     \<lparr> factory_services = [],
       factory_registry =
         new_ServiceRegistry (Some (option_or registryTimeout 30000))
                             (Some (option_or registryCleanupInterval 300000)) \<rparr>"

definition serviceTypes :: "(string \<times> jsval) list" where
  "serviceTypes =
     [(''api-gateway'', JStr ''./api-gateway''), (''api'', JStr ''./api''), (''otp'', JStr ''./otp'')]"

definition portMap :: "(string \<times> jsval) list" where
  "portMap = [(''api-gateway'', JNum 3000), (''api'', JNum 3001), (''otp'', JNum 3002)]"

definition getDefaultPort :: "string \<Rightarrow> jsval" where
  "getDefaultPort type = js_or (get_prop portMap type) (JNum 3000)"

text \<open>
  \<open>path.join(process.cwd(), 'config', `${env}-service-config.json`)\<close>, the environment
  defaulting to development when it is undefined.
\<close>

definition getConfigPath :: "string \<Rightarrow> string \<Rightarrow> jsval \<Rightarrow> jsval" where
  "getConfigPath dir type e =
     JStr (dir @ ''/config/'' @ to_string (if e = JUndefined then JStr ''development'' else e)
             @ ''-service-config.json'')"

definition initializeMessageBroker :: "environment \<Rightarrow> string \<Rightarrow> error + (jsval \<times> jsval) option" where
  "initializeMessageBroker ev type =
     (if type = ''api-gateway'' then Inr None
      else case broker_connect ev of
             Inl e \<Rightarrow> Inl e
           | Inr broker \<Rightarrow> Inr (Some broker))"

text \<open>\<open>require(v)\<close>: a module path is loaded, anything else is refused.\<close>

definition require_module ::
  "environment \<Rightarrow> jsval \<Rightarrow> error + ((string \<times> jsval) list \<Rightarrow> error + BaseService)" where
  "require_module ev v =
     (case v of
        JStr path \<Rightarrow> modules ev path
      | _ \<Rightarrow> Inl (ModuleError ''The id argument must be of type string''))"

definition createService ::
  "environment \<Rightarrow> ServiceFactory \<Rightarrow> string \<Rightarrow> (string \<times> jsval) list
     \<Rightarrow> (error + BaseService) \<times> ServiceFactory" where
  "createService ev f type options =
     (if type = [] then (Inl TypeRequired, f)
      else if \<not> truthy (get_prop serviceTypes type) then (Inl (UnsupportedType type), f)
      else
        case initializeMessageBroker ev type of
          Inl e \<Rightarrow> (Inl e, f)
        | Inr messageBroker \<Rightarrow>
            let serviceId = type @ ''-'' @ show_int (clock ev);
                serviceOptions =
                  spread
                    [(''name'', JStr type),
                     (''port'', js_or (get_prop options ''port'') (getDefaultPort type)),
                     (''connection'', case messageBroker of None \<Rightarrow> JUndefined | Some b \<Rightarrow> fst b),
                     (''channel'', case messageBroker of None \<Rightarrow> JUndefined | Some b \<Rightarrow> snd b),
                     (''configPath'', js_or (get_prop options ''configPath'')
                                           (getConfigPath (cwd ev) type (get_prop options ''env''))),
                     (''env'', js_or (js_or (get_prop options ''env'') (node_env ev))
                                    (JStr ''development'')),
                     (''registry'', JRef ''registry'')]
                    options
            in case require_module ev (get_prop serviceTypes type) of
                 Inl e \<Rightarrow> (Inl e, f)
               | Inr ServiceClass \<Rightarrow>
                   (case ServiceClass serviceOptions of
                      Inl e \<Rightarrow> (Inl e, f)
                    | Inr service \<Rightarrow>
                        (Inr service,
                         f\<lparr>factory_services :=
                             AList.update serviceId service (factory_services f)\<rparr>)))"

definition getAllServices :: "ServiceFactory \<Rightarrow> (string \<times> BaseService) list" where
  "getAllServices f = factory_services f"

text \<open>
  The modules of this repository that \<open>require\<close> finds under services/: the API and OTP
  services with the ports of their configuration, and the gateway, whose class is given.
\<close>

definition repository_modules ::
  "jsval \<Rightarrow> jsval \<Rightarrow> ((string \<times> jsval) list \<Rightarrow> error + BaseService)
     \<Rightarrow> string \<Rightarrow> error + ((string \<times> jsval) list \<Rightarrow> error + BaseService)" where
  "repository_modules api_port otp_port GatewayService path =
     (if path = ''./api'' then Inr (\<lambda>options. Inr (new_APIService api_port options))
      else if path = ''./otp'' then Inr (\<lambda>options. Inr (new_OTPService otp_port options))
      else if path = ''./api-gateway'' then Inr GatewayService
      else Inl (ModuleError path))"

section \<open>Command line (index.js)\<close>

text \<open>\<open>toLowerCase\<close> on the letters A to Z; other characters stay.\<close>

definition toLowerCase :: "string \<Rightarrow> string" where
  "toLowerCase s =
     map (\<lambda>c. if 65 \<le> (of_char c :: nat) \<and> (of_char c :: nat) \<le> 90
               then char_of ((of_char c :: nat) + 32) else c) s"

definition startsWith :: "string \<Rightarrow> string \<Rightarrow> bool" where
  "startsWith s pre = (take (length pre) s = pre)"

text \<open>
  The loop over the arguments: the state is \<open>serviceName\<close>, \<open>port\<close> and \<open>env\<close>, which start as
  undefined, undefined and development.
\<close>

definition read_argument :: "string \<Rightarrow> jsval \<times> jsval \<times> string \<Rightarrow> jsval \<times> jsval \<times> string" where
  "read_argument arg st =
     (case st of (serviceName, portArg, e) \<Rightarrow>
        if startsWith arg ''-s='' then (JStr (toLowerCase (drop 3 arg)), portArg, e)
        else if startsWith arg ''-e='' then (serviceName, portArg, toLowerCase (drop 3 arg))
        else (serviceName, portArg, e))"

text \<open>
  How a launch ends: the process exits with a status and a message on the error stream, or
  \<open>main\<close> has created the service and goes on to start it.
\<close>

datatype launch = Exit nat string | Start BaseService

definition index_main ::
  "environment \<Rightarrow> ServiceFactory \<Rightarrow> string list \<Rightarrow> launch \<times> ServiceFactory" where
  "index_main ev f args =
     (if length args < 1
      then (Exit 1 ''Invalid arguments. Please provide service name (e.g., -s=api-gateway).'', f)
      else
        case fold read_argument args (JUndefined, JUndefined, ''development'') of
          (serviceName, portArg, e) \<Rightarrow>
            if \<not> truthy serviceName
            then (Exit 1 ''Invalid arguments. Please provide service name (e.g., -s=api-gateway).'', f)
            else
              case createService (ev\<lparr>node_env := JStr e\<rparr>) f (to_string serviceName)
                     [(''port'', portArg), (''env'', JStr e)] of
                (Inl err, f') \<Rightarrow> (Exit 1 (''Failed to start '' @ to_string serviceName @ '' service''), f')
              | (Inr service, f') \<Rightarrow> (Start service, f'))"

text \<open>
  The options object \<open>main\<close> hands to \<open>createService\<close> for a list of arguments that names a
  service.
\<close>

definition main_options :: "string list \<Rightarrow> (string \<times> jsval) list" where
  "main_options args =
     (case fold read_argument args (JUndefined, JUndefined, ''development'') of
        (serviceName, portArg, e) \<Rightarrow> [(''port'', portArg), (''env'', JStr e)])"

text \<open>
  Modelled from the spec: the gateway class (services/api-gateway) is not among the sources;
  by the spec each concrete service wraps the base service runtime, so the gateway is
  constructed as a base service from the options it is given.
\<close>

definition new_GatewayService :: "(string \<times> jsval) list \<Rightarrow> error + BaseService" where
  "new_GatewayService options = Inr (new_BaseService options)"

text \<open>
  A process started in /app at time 0 with no variables set, a broker that connects, and
  the three services of the repository with their default ports.
\<close>

definition default_environment :: environment where
  "default_environment =
     \<lparr> clock = 0,
       broker_connect = Inr (JRef ''connection'', JRef ''channel''),
       node_env = JUndefined,
       cwd = ''/app'',
       modules = repository_modules (JNum 3001) (JNum 3002) new_GatewayService \<rparr>"

section \<open>Properties of the registry\<close>

subsection \<open>Keys\<close>

lemma digit_val_digit: "d < 10 \<Longrightarrow> digit_val (''0123456789'' ! d) = d"
proof -
  assume "d < 10"
  then have "d \<in> {0,1,2,3,4,5,6,7,8,9}" by auto
  then show ?thesis by (auto simp: digit_val_def)
qed

lemma digit_is_digit: "d < 10 \<Longrightarrow> ''0123456789'' ! d \<in> set ''0123456789''"
  by (rule nth_mem) simp

lemma read_show_nat: "read_nat (show_nat n) = n"
proof (induction n rule: show_nat.induct)
  case (1 n)
  show ?case
  proof (cases "n < 10")
    case True
    then show ?thesis
      by (subst show_nat.simps) (simp add: read_nat_def digit_val_digit)
  next
    case False
    with 1 have "read_nat (show_nat (n div 10)) = n div 10" by simp
    with False show ?thesis
      by (subst show_nat.simps) (simp add: read_nat_def digit_val_digit)
  qed
qed

lemma show_nat_inj: "show_nat a = show_nat b \<Longrightarrow> a = b"
  by (metis read_show_nat)

lemma show_nat_digits: "set (show_nat n) \<subseteq> set ''0123456789''"
proof (induction n rule: show_nat.induct)
  case (1 n)
  show ?case
  proof (cases "n < 10")
    case True
    then have "''0123456789'' ! n \<in> set ''0123456789''" by (rule digit_is_digit)
    with True show ?thesis by (subst show_nat.simps) simp
  next
    case False
    have "''0123456789'' ! (n mod 10) \<in> set ''0123456789''" by (rule digit_is_digit) simp
    with False 1 show ?thesis by (subst show_nat.simps) simp
  qed
qed

lemma show_nat_no_minus: "show_nat n \<noteq> CHR ''-'' # s"
proof
  assume "show_nat n = CHR ''-'' # s"
  then have "CHR ''-'' \<in> set (show_nat n)" by simp
  with show_nat_digits [of n] show False by auto
qed

lemma show_int_inj: "show_int a = show_int b \<Longrightarrow> a = b"
  using show_nat_no_minus show_nat_inj
  by (auto simp: show_int_def split: if_splits dest!: show_nat_inj) (metis)+

lemma split_at_colon:
  "CHR '':'' \<notin> set a \<Longrightarrow> CHR '':'' \<notin> set b \<Longrightarrow> a @ CHR '':'' # x = b @ CHR '':'' # y
     \<Longrightarrow> a = b \<and> x = y"
proof (induction a arbitrary: b)
  case Nil
  then show ?case by (cases b) auto
next
  case (Cons c a)
  then show ?case by (cases b) auto
qed

lemma show_int_no_colon: "CHR '':'' \<notin> set (show_int i)"
  using show_nat_digits [of "nat i"] show_nat_digits [of "nat (- i)"]
  by (auto simp: show_int_def)

lemma split_at_last_colon:
  assumes "CHR '':'' \<notin> set x" "CHR '':'' \<notin> set y" "a @ CHR '':'' # x = b @ CHR '':'' # y"
  shows "a = b \<and> x = y"
proof -
  from assms(3) have "rev (a @ CHR '':'' # x) = rev (b @ CHR '':'' # y)" by simp
  then have "rev x @ CHR '':'' # rev a = rev y @ CHR '':'' # rev b" by simp
  moreover from assms have "CHR '':'' \<notin> set (rev x)" "CHR '':'' \<notin> set (rev y)" by simp_all
  ultimately have "rev x = rev y \<and> rev a = rev b" by (rule split_at_colon [rotated 2])
  then show ?thesis by simp
qed

lemma generateKey_inj:
  assumes "CHR '':'' \<notin> set n1" "CHR '':'' \<notin> set n2"
    and "generateKey (JStr n1) (JStr h1) (JNum p1) = generateKey (JStr n2) (JStr h2) (JNum p2)"
  shows "n1 = n2 \<and> h1 = h2 \<and> p1 = p2"
proof -
  from assms(3) have eq: "n1 @ CHR '':'' # (h1 @ CHR '':'' # show_int p1)
                         = n2 @ CHR '':'' # (h2 @ CHR '':'' # show_int p2)"
    by (simp add: generateKey_def)
  from split_at_colon [OF assms(1) assms(2) eq]
  have n: "n1 = n2" and rest: "h1 @ CHR '':'' # show_int p1 = h2 @ CHR '':'' # show_int p2"
    by simp_all
  from split_at_last_colon [OF show_int_no_colon show_int_no_colon rest]
  have "h1 = h2" and "show_int p1 = show_int p2" by simp_all
  with n show ?thesis by (simp add: show_int_inj)
qed

text \<open>
  Every key holds a colon, and no property of \<open>Object.prototype\<close> does: a read
  \<open>this.services[key]\<close> never finds an inherited property, so reading own properties with
  \<open>map_of\<close> is what the registry does.
\<close>

lemma generateKey_not_inherited: "generateKey n h p \<notin> set object_prototype_keys"
proof
  assume "generateKey n h p \<in> set object_prototype_keys"
  moreover have "CHR '':'' \<in> set (generateKey n h p)"
    by (simp add: generateKey_def)
  ultimately show False
    by (auto simp: object_prototype_keys_def)
qed

lemmas eval_defs = register_def unregister_def new_ServiceRegistry_def option_or_def
  generateKey_def show_int_def show_nat.simps Let_def findAll_def getAll_def

lemma key_3001: "generateKey (JStr ''api'') (JStr ''localhost'') (JNum 3001) = ''api:localhost:3001''"
  by (simp add: generateKey_def show_int_def show_nat.simps)

lemma key_3002: "generateKey (JStr ''api'') (JStr ''localhost'') (JNum 3002) = ''api:localhost:3002''"
  by (simp add: generateKey_def show_int_def show_nat.simps)

subsection \<open>Registration\<close>

lemma register_keeps_distinct:
  "distinct (map fst (services r)) \<Longrightarrow> distinct (map fst (services (snd (register r now n h p md))))"
  by (auto simp: register_def Let_def distinct_update split: option.splits)

lemma unregister_keeps_distinct:
  "distinct (map fst (services r)) \<Longrightarrow> distinct (map fst (services (snd (unregister r n h p))))"
  by (auto simp: unregister_def Let_def distinct_delete split: option.splits)

lemma new_registry_distinct: "distinct (map fst (services (new_ServiceRegistry ot oc)))"
  by (simp add: new_ServiceRegistry_def)

lemma register_stores:
  assumes "truthy n" "truthy h" "truthy p"
  shows "\<exists>e. map_of (services (snd (register r now n h p md))) (generateKey n h p) = Some e
             \<and> timestamp e = now"
  using assms by (auto simp: register_def Let_def update_conv' split: option.splits)

lemma only_entry_for_key:
  "distinct (map fst xs) \<Longrightarrow> map_of xs k = Some v \<Longrightarrow> filter (\<lambda>e. fst e = k) xs = [(k, v)]"
  by (induction xs) (auto simp: filter_empty_conv image_iff split: if_splits dest: map_of_SomeD)

lemma register_calls_one_entry:
  assumes "distinct (map fst (services r))" "calls \<noteq> []"
    and "\<forall>(now, n, h, p, md) \<in> set calls. truthy n \<and> truthy h \<and> truthy p \<and> generateKey n h p = k"
  shows "\<exists>e. filter (\<lambda>x. fst x = k) (services (register_calls r calls)) = [(k, e)]
             \<and> timestamp e = fst (last calls)"
  using assms
proof (induction r calls rule: register_calls.induct)
  case (1 r)
  then show ?case by simp
next
  case (2 r now n h p md calls)
  let ?r' = "snd (register r now n h p md)"
  have ok: "distinct (map fst (services ?r'))"
    using "2.prems"(1) by (rule register_keeps_distinct)
  show ?case
  proof (cases "calls = []")
    case True
    from "2.prems"(3) have args: "truthy n" "truthy h" "truthy p" "generateKey n h p = k"
      by auto
    from register_stores [OF args(1-3), of r now md] args(4)
    obtain e where e: "map_of (services ?r') k = Some e" "timestamp e = now"
      by auto
    from only_entry_for_key [OF ok e(1)] e(2) True show ?thesis by simp
  next
    case False
    from "2.prems"(3) have rest:
      "\<forall>(now, n, h, p, md) \<in> set calls. truthy n \<and> truthy h \<and> truthy p \<and> generateKey n h p = k"
      by simp
    from "2.IH" [OF ok False rest] False show ?thesis by simp
  qed
qed

lemma register_calls_keep_distinct:
  "distinct (map fst (services r)) \<Longrightarrow> distinct (map fst (services (register_calls r calls)))"
  by (induction r calls rule: register_calls.induct) (simp_all add: register_keeps_distinct)

lemma at_most_one_entry_for_key:
  "distinct (map fst xs) \<Longrightarrow> length (filter (\<lambda>x. fst x = k) xs) \<le> 1"
  by (induction xs) (auto simp: filter_empty_conv image_iff)

lemma register_renews:
  assumes "truthy n" "truthy h" "truthy p"
    and "map_of (services r) (generateKey n h p) = Some e"
  shows "fst (register r now n h p md) = Inr (e\<lparr>timestamp := now\<rparr>)"
    and "map fst (services (snd (register r now n h p md))) = map fst (services r)"
    and "map_of (services (snd (register r now n h p md))) (generateKey n h p)
           = Some (e\<lparr>timestamp := now\<rparr>)"
    and "\<forall>k'. k' \<noteq> generateKey n h p \<longrightarrow>
           map_of (services (snd (register r now n h p md))) k' = map_of (services r) k'"
proof -
  from assms(4) have "(generateKey n h p, e) \<in> set (services r)" by (rule map_of_SomeD)
  then have mem: "generateKey n h p \<in> fst ` set (services r)" by force
  from assms show "fst (register r now n h p md) = Inr (e\<lparr>timestamp := now\<rparr>)"
    by (simp add: register_def Let_def)
  from assms mem show "map fst (services (snd (register r now n h p md))) = map fst (services r)"
    by (simp add: register_def Let_def update_keys)
  from assms show "map_of (services (snd (register r now n h p md))) (generateKey n h p)
           = Some (e\<lparr>timestamp := now\<rparr>)"
    by (simp add: register_def Let_def update_conv')
  from assms show "\<forall>k'. k' \<noteq> generateKey n h p \<longrightarrow>
           map_of (services (snd (register r now n h p md))) k' = map_of (services r) k'"
    by (simp add: register_def Let_def update_conv')
qed

text \<open>
  C1. A \<open>register\<close> call with a falsy name, host or port (the empty string and zero among
  them) fails with InvalidArgument and leaves the registry as it was. With valid arguments
  and an entry already stored under the key, the call creates nothing: the keys of the store
  are the same, the entry under the key is the old one with its timestamp set to the current
  time, that entry is what the call returns, and the other entries are untouched. After any
  non-empty run of valid calls for one key, from a store with one entry per key, the store
  holds exactly one entry for the key and its timestamp is that of the last call; and after
  any run of calls whatever, no key has more than one entry.
\<close>

theorem register_idempotent_renewal:
  assumes "distinct (map fst (services r))"
  shows "(\<not> truthy n \<or> \<not> truthy h \<or> \<not> truthy p \<longrightarrow>
            register r now n h p md = (Inl InvalidArgument, r))
       \<and> (truthy n \<and> truthy h \<and> truthy p \<and> map_of (services r) (generateKey n h p) = Some e \<longrightarrow>
            fst (register r now n h p md) = Inr (e\<lparr>timestamp := now\<rparr>)
          \<and> map fst (services (snd (register r now n h p md))) = map fst (services r)
          \<and> map_of (services (snd (register r now n h p md))) (generateKey n h p)
               = Some (e\<lparr>timestamp := now\<rparr>)
          \<and> (\<forall>k'. k' \<noteq> generateKey n h p \<longrightarrow>
               map_of (services (snd (register r now n h p md))) k' = map_of (services r) k'))
       \<and> (calls \<noteq> [] \<and>
          (\<forall>(t, n', h', p', md') \<in> set calls.
              truthy n' \<and> truthy h' \<and> truthy p' \<and> generateKey n' h' p' = k) \<longrightarrow>
            (\<exists>e'. filter (\<lambda>x. fst x = k) (services (register_calls r calls)) = [(k, e')]
                 \<and> timestamp e' = fst (last calls)))
       \<and> length (filter (\<lambda>x. fst x = k) (services (register_calls r others))) \<le> 1"
proof (intro conjI impI)
  from assms have "distinct (map fst (services (register_calls r others)))"
    by (rule register_calls_keep_distinct)
  then show "length (filter (\<lambda>x. fst x = k) (services (register_calls r others))) \<le> 1"
    by (rule at_most_one_entry_for_key)
next
  assume "\<not> truthy n \<or> \<not> truthy h \<or> \<not> truthy p"
  then show "register r now n h p md = (Inl InvalidArgument, r)"
    by (auto simp: register_def)
next
  assume a: "truthy n \<and> truthy h \<and> truthy p \<and> map_of (services r) (generateKey n h p) = Some e"
  then show "fst (register r now n h p md) = Inr (e\<lparr>timestamp := now\<rparr>)"
    by (simp add: register_renews)
  from a show "map fst (services (snd (register r now n h p md))) = map fst (services r)"
    by (simp add: register_renews)
  from a show "map_of (services (snd (register r now n h p md))) (generateKey n h p)
               = Some (e\<lparr>timestamp := now\<rparr>)"
    by (simp add: register_renews)
  from a show "\<forall>k'. k' \<noteq> generateKey n h p \<longrightarrow>
               map_of (services (snd (register r now n h p md))) k' = map_of (services r) k'"
    using register_renews(4) by blast
next
  assume "calls \<noteq> [] \<and>
          (\<forall>(t, n', h', p', md') \<in> set calls.
              truthy n' \<and> truthy h' \<and> truthy p' \<and> generateKey n' h' p' = k)"
  with assms show "\<exists>e'. filter (\<lambda>x. fst x = k) (services (register_calls r calls)) = [(k, e')]
                 \<and> timestamp e' = fst (last calls)"
    using register_calls_one_entry by blast
qed

theorem register_idempotent_renewal_witness:
  "distinct (map fst (services (new_ServiceRegistry None None)))
   \<and> \<not> truthy (JStr '''') \<and> \<not> truthy (JNum 0)
   \<and> register (new_ServiceRegistry None None) 5 (JStr '''') (JStr ''localhost'') (JNum 3001) JUndefined
        = (Inl InvalidArgument, new_ServiceRegistry None None)
   \<and> register (new_ServiceRegistry None None) 5 (JStr ''api'') (JStr ''localhost'') (JNum 0) JUndefined
        = (Inl InvalidArgument, new_ServiceRegistry None None)
   \<and> map_of (services (snd (register (new_ServiceRegistry None None) 5
              (JStr ''api'') (JStr ''localhost'') (JNum 3001) JUndefined))) ''api:localhost:3001''
        = Some \<lparr> name = JStr ''api'', host = JStr ''localhost'', port = JNum 3001,
                 url = ''http://localhost:3001'', timestamp = 5, metadata = JRef ''{}'',
                 key = ''api:localhost:3001'' \<rparr>
   \<and> fst (register (snd (register (new_ServiceRegistry None None) 5
              (JStr ''api'') (JStr ''localhost'') (JNum 3001) JUndefined)) 9
              (JStr ''api'') (JStr ''localhost'') (JNum 3001) JUndefined)
        = Inr \<lparr> name = JStr ''api'', host = JStr ''localhost'', port = JNum 3001,
                url = ''http://localhost:3001'', timestamp = 9, metadata = JRef ''{}'',
                key = ''api:localhost:3001'' \<rparr>
   \<and> map timestamp (getAll (register_calls (new_ServiceRegistry None None)
           [(5, JStr ''api'', JStr ''localhost'', JNum 3001, JUndefined),
            (9, JStr ''api'', JStr ''localhost'', JNum 3001, JUndefined)])) = [9]"
proof -
  let ?r0 = "new_ServiceRegistry None None"
  let ?r1 = "snd (register ?r0 5 (JStr ''api'') (JStr ''localhost'') (JNum 3001) JUndefined)"
  let ?e = "\<lparr> name = JStr ''api'', host = JStr ''localhost'', port = JNum 3001,
              url = ''http://localhost:3001'', timestamp = 5, metadata = JRef ''{}'',
              key = ''api:localhost:3001'' \<rparr>"
  let ?calls = "[(5, JStr ''api'', JStr ''localhost'', JNum 3001, JUndefined),
                 (9, JStr ''api'', JStr ''localhost'', JNum 3001, JUndefined)]"
  have wf: "distinct (map fst (services ?r0))"
    by (simp add: new_ServiceRegistry_def)
  have wf1: "distinct (map fst (services ?r1))"
    by (simp add: register_def new_ServiceRegistry_def key_3001 Let_def)
  have stored: "map_of (services ?r1) ''api:localhost:3001'' = Some ?e"
    by (simp add: register_def new_ServiceRegistry_def key_3001 Let_def show_int_def show_nat.simps)
  have a: "register ?r0 5 (JStr '''') (JStr ''localhost'') (JNum 3001) JUndefined
             = (Inl InvalidArgument, ?r0)"
    using register_idempotent_renewal [OF wf, where n = "JStr ''''" and h = "JStr ''localhost''"
        and p = "JNum 3001"]
    by simp
  have b: "register ?r0 5 (JStr ''api'') (JStr ''localhost'') (JNum 0) JUndefined
             = (Inl InvalidArgument, ?r0)"
    using register_idempotent_renewal [OF wf, where n = "JStr ''api''" and h = "JStr ''localhost''"
        and p = "JNum 0"]
    by simp
  have c: "fst (register ?r1 9 (JStr ''api'') (JStr ''localhost'') (JNum 3001) JUndefined)
             = Inr (?e\<lparr>timestamp := 9\<rparr>)"
    using register_idempotent_renewal [OF wf1, where n = "JStr ''api''" and h = "JStr ''localhost''"
        and p = "JNum 3001" and e = ?e]
      stored
    by (simp add: key_3001)
  have "\<exists>e'. filter (\<lambda>x. fst x = ''api:localhost:3001'') (services (register_calls ?r0 ?calls))
               = [(''api:localhost:3001'', e')] \<and> timestamp e' = fst (last ?calls)"
    using register_idempotent_renewal [OF wf, where calls = ?calls and k = "''api:localhost:3001''"]
    by (simp add: key_3001)
  then have d: "map timestamp (getAll (register_calls ?r0 ?calls)) = [9]"
    by (simp add: eval_defs)
  from wf a b c d stored show ?thesis by simp
qed

subsection \<open>Two keys\<close>

lemma register_other_key:
  assumes "k' \<noteq> generateKey n h p"
  shows "map_of (services (snd (register r now n h p md))) k' = map_of (services r) k'"
  using assms by (auto simp: register_def Let_def update_conv' split: option.splits)

lemma register_returns_stored:
  assumes "truthy n" "truthy h" "truthy p"
  shows "\<exists>e. fst (register r now n h p md) = Inr e \<and> timestamp e = now
           \<and> map_of (services (snd (register r now n h p md))) (generateKey n h p) = Some e"
  using assms by (auto simp: register_def Let_def update_conv' split: option.splits)

lemma two_keys_two_entries:
  assumes wf: "distinct (map fst (services r))"
    and args: "truthy a1" "truthy b1" "truthy c1" "truthy a2" "truthy b2" "truthy c2"
    and ne: "generateKey a1 b1 c1 \<noteq> generateKey a2 b2 c2"
  shows "\<exists>e1 e2.
           fst (register r t1 a1 b1 c1 m1) = Inr e1 \<and> timestamp e1 = t1
         \<and> fst (register (snd (register r t1 a1 b1 c1 m1)) t2 a2 b2 c2 m2) = Inr e2
         \<and> timestamp e2 = t2
         \<and> filter (\<lambda>x. fst x = generateKey a1 b1 c1)
              (services (snd (register (snd (register r t1 a1 b1 c1 m1)) t2 a2 b2 c2 m2)))
             = [(generateKey a1 b1 c1, e1)]
         \<and> filter (\<lambda>x. fst x = generateKey a2 b2 c2)
              (services (snd (register (snd (register r t1 a1 b1 c1 m1)) t2 a2 b2 c2 m2)))
             = [(generateKey a2 b2 c2, e2)]"
proof -
  let ?r1 = "snd (register r t1 a1 b1 c1 m1)"
  let ?r2 = "snd (register ?r1 t2 a2 b2 c2 m2)"
  from register_returns_stored [OF args(1-3), of r t1 m1]
  obtain e1 where e1: "fst (register r t1 a1 b1 c1 m1) = Inr e1" "timestamp e1 = t1"
      "map_of (services ?r1) (generateKey a1 b1 c1) = Some e1" by blast
  from register_returns_stored [OF args(4-6), of ?r1 t2 m2]
  obtain e2 where e2: "fst (register ?r1 t2 a2 b2 c2 m2) = Inr e2" "timestamp e2 = t2"
      "map_of (services ?r2) (generateKey a2 b2 c2) = Some e2" by blast
  have wf2: "distinct (map fst (services ?r2))"
    by (intro register_keeps_distinct wf)
  from ne e1(3) have "map_of (services ?r2) (generateKey a1 b1 c1) = Some e1"
    by (simp add: register_other_key)
  from only_entry_for_key [OF wf2 this] only_entry_for_key [OF wf2 e2(3)] e1 e2
  show ?thesis by blast
qed

text \<open>
  Where the keys differ the registry keeps the entries apart. Two triples of colon-free
  names, any hosts and numeric ports that differ have different keys. Two valid
  registrations whose keys differ, made one after the other on a store with one entry per
  key, leave exactly one entry under each key: the first call's entry as that call returned
  it, not renewed or overwritten by the second, and the second call's entry. On a new
  registry, registering api at localhost:3001 and then at localhost:3002 makes \<open>findAll\<close>
  return two entries while both are live; unregistering the first returns true and leaves
  \<open>findAll\<close> with the single entry of port 3002.
\<close>

theorem distinct_keys_distinct_entries:
  assumes "distinct (map fst (services r))"
  shows "(CHR '':'' \<notin> set n1 \<and> CHR '':'' \<notin> set n2 \<and> (n1, h1, p1) \<noteq> (n2, h2, p2) \<longrightarrow>
            generateKey (JStr n1) (JStr h1) (JNum p1) \<noteq> generateKey (JStr n2) (JStr h2) (JNum p2))
       \<and> (truthy a1 \<and> truthy b1 \<and> truthy c1 \<and> truthy a2 \<and> truthy b2 \<and> truthy c2
          \<and> generateKey a1 b1 c1 \<noteq> generateKey a2 b2 c2 \<longrightarrow>
            (\<exists>e1 e2.
               fst (register r t1 a1 b1 c1 m1) = Inr e1 \<and> timestamp e1 = t1
             \<and> fst (register (snd (register r t1 a1 b1 c1 m1)) t2 a2 b2 c2 m2) = Inr e2
             \<and> timestamp e2 = t2
             \<and> filter (\<lambda>x. fst x = generateKey a1 b1 c1)
                  (services (snd (register (snd (register r t1 a1 b1 c1 m1)) t2 a2 b2 c2 m2)))
                 = [(generateKey a1 b1 c1, e1)]
             \<and> filter (\<lambda>x. fst x = generateKey a2 b2 c2)
                  (services (snd (register (snd (register r t1 a1 b1 c1 m1)) t2 a2 b2 c2 m2)))
                 = [(generateKey a2 b2 c2, e2)]))
       \<and> (u1 - s1 \<le> timeout (new_ServiceRegistry ot oc) \<and> u1 - s2 \<le> timeout (new_ServiceRegistry ot oc)
          \<and> u2 - s2 \<le> timeout (new_ServiceRegistry ot oc) \<longrightarrow>
            length (findAll
               (snd (register (snd (register (new_ServiceRegistry ot oc) s1
                        (JStr ''api'') (JStr ''localhost'') (JNum 3001) m1))
                     s2 (JStr ''api'') (JStr ''localhost'') (JNum 3002) m2))
               u1 (JStr ''api'')) = 2
          \<and> fst (unregister
               (snd (register (snd (register (new_ServiceRegistry ot oc) s1
                        (JStr ''api'') (JStr ''localhost'') (JNum 3001) m1))
                     s2 (JStr ''api'') (JStr ''localhost'') (JNum 3002) m2))
               (JStr ''api'') (JStr ''localhost'') (JNum 3001))
          \<and> map port (findAll
               (snd (unregister
                  (snd (register (snd (register (new_ServiceRegistry ot oc) s1
                           (JStr ''api'') (JStr ''localhost'') (JNum 3001) m1))
                        s2 (JStr ''api'') (JStr ''localhost'') (JNum 3002) m2))
                  (JStr ''api'') (JStr ''localhost'') (JNum 3001)))
               u2 (JStr ''api'')) = [JNum 3002])"
proof (intro conjI impI)
  assume "CHR '':'' \<notin> set n1 \<and> CHR '':'' \<notin> set n2 \<and> (n1, h1, p1) \<noteq> (n2, h2, p2)"
  then show "generateKey (JStr n1) (JStr h1) (JNum p1) \<noteq> generateKey (JStr n2) (JStr h2) (JNum p2)"
    using generateKey_inj [of n1 n2 h1 p1 h2 p2] by auto
next
  assume "truthy a1 \<and> truthy b1 \<and> truthy c1 \<and> truthy a2 \<and> truthy b2 \<and> truthy c2
          \<and> generateKey a1 b1 c1 \<noteq> generateKey a2 b2 c2"
  with assms show "\<exists>e1 e2.
               fst (register r t1 a1 b1 c1 m1) = Inr e1 \<and> timestamp e1 = t1
             \<and> fst (register (snd (register r t1 a1 b1 c1 m1)) t2 a2 b2 c2 m2) = Inr e2
             \<and> timestamp e2 = t2
             \<and> filter (\<lambda>x. fst x = generateKey a1 b1 c1)
                  (services (snd (register (snd (register r t1 a1 b1 c1 m1)) t2 a2 b2 c2 m2)))
                 = [(generateKey a1 b1 c1, e1)]
             \<and> filter (\<lambda>x. fst x = generateKey a2 b2 c2)
                  (services (snd (register (snd (register r t1 a1 b1 c1 m1)) t2 a2 b2 c2 m2)))
                 = [(generateKey a2 b2 c2, e2)]"
    by (intro two_keys_two_entries) simp_all
next
  let ?r0 = "new_ServiceRegistry ot oc"
  let ?r2 = "snd (register (snd (register ?r0 s1
                        (JStr ''api'') (JStr ''localhost'') (JNum 3001) m1))
                     s2 (JStr ''api'') (JStr ''localhost'') (JNum 3002) m2)"
  assume live: "u1 - s1 \<le> timeout ?r0 \<and> u1 - s2 \<le> timeout ?r0 \<and> u2 - s2 \<le> timeout ?r0"
  from live show "length (findAll ?r2 u1 (JStr ''api'')) = 2"
    by (simp add: register_def key_3001 key_3002 Let_def findAll_def new_ServiceRegistry_def)
  show "fst (unregister ?r2 (JStr ''api'') (JStr ''localhost'') (JNum 3001))"
    by (simp add: register_def unregister_def key_3001 key_3002 Let_def new_ServiceRegistry_def)
  from live show "map port (findAll (snd (unregister ?r2 (JStr ''api'') (JStr ''localhost'') (JNum 3001)))
               u2 (JStr ''api'')) = [JNum 3002]"
    by (simp add: register_def unregister_def key_3001 key_3002 Let_def findAll_def new_ServiceRegistry_def)
qed

theorem distinct_keys_distinct_entries_witness:
  "distinct (map fst (services (new_ServiceRegistry None None)))
   \<and> CHR '':'' \<notin> set ''api''
   \<and> (''api'', ''localhost'', 3001 :: int) \<noteq> (''api'', ''localhost'', 3002)
   \<and> generateKey (JStr ''api'') (JStr ''localhost'') (JNum 3001)
        \<noteq> generateKey (JStr ''api'') (JStr ''localhost'') (JNum 3002)
   \<and> (7 :: int) - 5 \<le> timeout (new_ServiceRegistry None None)
   \<and> truthy (JStr ''api'') \<and> truthy (JStr ''localhost'') \<and> truthy (JNum 3001) \<and> truthy (JNum 3002)
   \<and> length (filter (\<lambda>x. fst x = ''api:localhost:3001'') (services
         (snd (register (snd (register (new_ServiceRegistry None None) 5
                  (JStr ''api'') (JStr ''localhost'') (JNum 3001) JUndefined))
               6 (JStr ''api'') (JStr ''localhost'') (JNum 3002) JUndefined)))) = 1
   \<and> map port (getAll
         (snd (register (snd (register (new_ServiceRegistry None None) 5
                  (JStr ''api'') (JStr ''localhost'') (JNum 3001) JUndefined))
               6 (JStr ''api'') (JStr ''localhost'') (JNum 3002) JUndefined)))
        = [JNum 3001, JNum 3002]
   \<and> length (findAll
         (snd (register (snd (register (new_ServiceRegistry None None) 5
                  (JStr ''api'') (JStr ''localhost'') (JNum 3001) JUndefined))
               6 (JStr ''api'') (JStr ''localhost'') (JNum 3002) JUndefined))
         7 (JStr ''api'')) = 2
   \<and> map port (findAll
         (snd (unregister
            (snd (register (snd (register (new_ServiceRegistry None None) 5
                     (JStr ''api'') (JStr ''localhost'') (JNum 3001) JUndefined))
                  6 (JStr ''api'') (JStr ''localhost'') (JNum 3002) JUndefined))
            (JStr ''api'') (JStr ''localhost'') (JNum 3001)))
         7 (JStr ''api'')) = [JNum 3002]"
proof -
  let ?r0 = "new_ServiceRegistry None None"
  let ?r2 = "snd (register (snd (register ?r0 5
                  (JStr ''api'') (JStr ''localhost'') (JNum 3001) JUndefined))
               6 (JStr ''api'') (JStr ''localhost'') (JNum 3002) JUndefined)"
  have wf: "distinct (map fst (services ?r0))"
    by (simp add: new_ServiceRegistry_def)
  have live: "(7 :: int) - 5 \<le> timeout ?r0 \<and> (7 :: int) - 6 \<le> timeout ?r0"
    by (simp add: new_ServiceRegistry_def option_or_def)
  note T = distinct_keys_distinct_entries [OF wf,
      where ?n1.0 = "''api''" and ?h1.0 = "''localhost''" and ?p1.0 = 3001
        and ?n2.0 = "''api''" and ?h2.0 = "''localhost''" and ?p2.0 = 3002
        and ?s1.0 = 5 and ?s2.0 = 6 and ?u1.0 = 7 and ?u2.0 = 7 and ot = None and oc = None
        and ?m1.0 = JUndefined and ?m2.0 = JUndefined
        and ?a1.0 = "JStr ''api''" and ?b1.0 = "JStr ''localhost''" and ?c1.0 = "JNum 3001"
        and ?a2.0 = "JStr ''api''" and ?b2.0 = "JStr ''localhost''" and ?c2.0 = "JNum 3002"
        and ?t1.0 = 5 and ?t2.0 = 6]
  have args: "truthy (JStr ''api'') \<and> truthy (JStr ''localhost'') \<and> truthy (JNum 3001)
      \<and> truthy (JNum 3002)"
    by simp
  from T have ne: "generateKey (JStr ''api'') (JStr ''localhost'') (JNum 3001)
        \<noteq> generateKey (JStr ''api'') (JStr ''localhost'') (JNum 3002)"
    by simp
  from T live have two: "length (findAll ?r2 7 (JStr ''api'')) = 2"
    by simp
  from T ne have "\<exists>e1. filter (\<lambda>x. fst x = generateKey (JStr ''api'') (JStr ''localhost'') (JNum 3001))
                       (services ?r2)
                    = [(generateKey (JStr ''api'') (JStr ''localhost'') (JNum 3001), e1)]"
    by auto
  then have single: "length (filter (\<lambda>x. fst x = ''api:localhost:3001'') (services ?r2)) = 1"
    by (auto simp: key_3001)
  from T live have one: "map port (findAll
         (snd (unregister ?r2 (JStr ''api'') (JStr ''localhost'') (JNum 3001))) 7 (JStr ''api''))
        = [JNum 3002]"
    by simp
  have both: "map port (getAll ?r2) = [JNum 3001, JNum 3002]"
    by (simp add: register_def new_ServiceRegistry_def key_3001 key_3002 Let_def getAll_def)
  from wf live ne args two single one both show ?thesis by simp
qed

text \<open>
  C2. The key \<open>name:host:port\<close> does not determine the triple. For every non-empty \<open>n\<close> and
  \<open>h\<close>, every \<open>m\<close> and every valid port, the triples (n:m, h, port) and (n, m:h, port) differ
  and have the same key. Registering the first and then the second stores no second entry:
  the second call takes the renewal path and returns the entry of the first call with its
  timestamp set anew, and the keys of the store are those before the call. When nothing was
  stored under the key before, that entry has the name n:m and the host h, so the service
  named \<open>n\<close> that has just registered is under no entry of its own.
\<close>

theorem key_collision_renews_other_service:
  assumes "n \<noteq> []" "h \<noteq> []" "truthy p"
  shows "(JStr (n @ '':'' @ m), JStr h, p) \<noteq> (JStr n, JStr (m @ '':'' @ h), p)
       \<and> generateKey (JStr (n @ '':'' @ m)) (JStr h) p = generateKey (JStr n) (JStr (m @ '':'' @ h)) p
       \<and> (\<exists>e. fst (register r t1 (JStr (n @ '':'' @ m)) (JStr h) p md1) = Inr e
             \<and> fst (register (snd (register r t1 (JStr (n @ '':'' @ m)) (JStr h) p md1)) t2
                      (JStr n) (JStr (m @ '':'' @ h)) p md2) = Inr (e\<lparr>timestamp := t2\<rparr>)
             \<and> map fst (services (snd (register (snd (register r t1 (JStr (n @ '':'' @ m)) (JStr h) p md1))
                      t2 (JStr n) (JStr (m @ '':'' @ h)) p md2)))
                 = map fst (services (snd (register r t1 (JStr (n @ '':'' @ m)) (JStr h) p md1)))
             \<and> (map_of (services r) (generateKey (JStr (n @ '':'' @ m)) (JStr h) p) = None \<longrightarrow>
                  name e = JStr (n @ '':'' @ m) \<and> host e = JStr h \<and> name e \<noteq> JStr n))"
proof -
  let ?A = "JStr (n @ '':'' @ m)" and ?H = "JStr h"
  let ?B = "JStr n" and ?G = "JStr (m @ '':'' @ h)"
  let ?r1 = "snd (register r t1 ?A ?H p md1)"
  have ne: "(?A, ?H, p) \<noteq> (?B, ?G, p)" by simp
  have k: "generateKey ?A ?H p = generateKey ?B ?G p"
    by (simp add: generateKey_def)
  from assms have args1: "truthy ?A" "truthy ?H" "truthy p" by simp_all
  from assms have args2: "truthy ?B" "truthy ?G" "truthy p" by simp_all
  from register_returns_stored [OF args1, of r t1 md1]
  obtain e where e: "fst (register r t1 ?A ?H p md1) = Inr e"
      "map_of (services ?r1) (generateKey ?A ?H p) = Some e" by blast
  from e(2) k have st: "map_of (services ?r1) (generateKey ?B ?G p) = Some e" by simp
  note rn = register_renews [OF args2 st, of t2 md2]
  have fresh: "map_of (services r) (generateKey ?A ?H p) = None \<longrightarrow>
                  name e = ?A \<and> host e = ?H \<and> name e \<noteq> ?B"
    using e(1) args1 by (auto simp: register_def Let_def)
  show ?thesis
  proof (intro conjI exI [of _ e])
    show "(?A, ?H, p) \<noteq> (?B, ?G, p)" by (rule ne)
    show "generateKey ?A ?H p = generateKey ?B ?G p" by (rule k)
    show "fst (register r t1 ?A ?H p md1) = Inr e" by (rule e(1))
    show "fst (register ?r1 t2 ?B ?G p md2) = Inr (e\<lparr>timestamp := t2\<rparr>)" by (rule rn(1))
    show "map fst (services (snd (register ?r1 t2 ?B ?G p md2))) = map fst (services ?r1)"
      by (rule rn(2))
    show "map_of (services r) (generateKey ?A ?H p) = None \<longrightarrow>
            name e = ?A \<and> host e = ?H \<and> name e \<noteq> ?B"
      by (rule fresh)
  qed
qed

theorem key_collision_renews_other_service_witness:
  "''a'' \<noteq> [] \<and> ''c'' \<noteq> [] \<and> truthy (JNum 1)
   \<and> map_of (services (new_ServiceRegistry None None))
        (generateKey (JStr ''a:b'') (JStr ''c'') (JNum 1)) = None
   \<and> fst (register (snd (register (new_ServiceRegistry None None) 5
                        (JStr ''a:b'') (JStr ''c'') (JNum 1) JUndefined))
                     9 (JStr ''a'') (JStr ''b:c'') (JNum 1) JUndefined)
       = Inr \<lparr> name = JStr ''a:b'', host = JStr ''c'', port = JNum 1, url = ''http://c:1'',
                timestamp = 9, metadata = JRef ''{}'', key = ''a:b:c:1'' \<rparr>
   \<and> getAll (snd (register (snd (register (new_ServiceRegistry None None) 5
                        (JStr ''a:b'') (JStr ''c'') (JNum 1) JUndefined))
                     9 (JStr ''a'') (JStr ''b:c'') (JNum 1) JUndefined))
       = [\<lparr> name = JStr ''a:b'', host = JStr ''c'', port = JNum 1, url = ''http://c:1'',
             timestamp = 9, metadata = JRef ''{}'', key = ''a:b:c:1'' \<rparr>]
   \<and> findAll (snd (register (snd (register (new_ServiceRegistry None None) 5
                        (JStr ''a:b'') (JStr ''c'') (JNum 1) JUndefined))
                     9 (JStr ''a'') (JStr ''b:c'') (JNum 1) JUndefined)) 9 (JStr ''a'') = []"
proof -
  let ?r0 = "new_ServiceRegistry None None"
  let ?r1 = "snd (register ?r0 5 (JStr ''a:b'') (JStr ''c'') (JNum 1) JUndefined)"
  let ?e = "\<lparr> name = JStr ''a:b'', host = JStr ''c'', port = JNum 1, url = ''http://c:1'',
              timestamp = 5, metadata = JRef ''{}'', key = ''a:b:c:1'' \<rparr>"
  have hyp: "''a'' \<noteq> [] \<and> ''c'' \<noteq> [] \<and> truthy (JNum 1)" by simp
  have fresh: "map_of (services ?r0) (generateKey (JStr ''a:b'') (JStr ''c'') (JNum 1)) = None"
    by (simp add: new_ServiceRegistry_def)
  have first: "fst (register ?r0 5 (JStr ''a:b'') (JStr ''c'') (JNum 1) JUndefined) = Inr ?e"
    by (simp add: eval_defs)
  from key_collision_renews_other_service [where n = "''a''" and m = "''b''" and h = "''c''"
      and p = "JNum 1" and r = ?r0 and ?t1.0 = 5 and ?t2.0 = 9 and ?md1.0 = JUndefined
      and ?md2.0 = JUndefined] first
  have second: "fst (register ?r1 9 (JStr ''a'') (JStr ''b:c'') (JNum 1) JUndefined)
                  = Inr (?e\<lparr>timestamp := 9\<rparr>)"
    by auto
  have all: "getAll (snd (register ?r1 9 (JStr ''a'') (JStr ''b:c'') (JNum 1) JUndefined))
               = [?e\<lparr>timestamp := 9\<rparr>]"
    by (simp add: eval_defs)
  have none: "findAll (snd (register ?r1 9 (JStr ''a'') (JStr ''b:c'') (JNum 1) JUndefined))
                9 (JStr ''a'') = []"
    by (simp add: eval_defs)
  from hyp fresh second all none show ?thesis by simp
qed

subsection \<open>Lookup\<close>

lemma floor_index_in_range:
  assumes "0 \<le> rnd" "rnd < 1" "0 < len"
  shows "0 \<le> \<lfloor>rnd * real len\<rfloor> \<and> \<lfloor>rnd * real len\<rfloor> < int len"
proof -
  from assms have "0 \<le> rnd * real len" by simp
  then have lo: "0 \<le> \<lfloor>rnd * real len\<rfloor>" by simp
  from assms have "rnd * real len < 1 * real len"
    by (intro mult_strict_right_mono) simp_all
  then have "rnd * real len < of_int (int len)" by simp
  then have "\<lfloor>rnd * real len\<rfloor> < int len" by (simp only: floor_less_iff)
  with lo show ?thesis by simp
qed

text \<open>
  C3. \<open>findAll\<close> returns, in store order, exactly the stored entries whose name is the
  argument and whose age \<open>now - timestamp\<close> is at most the timeout (an entry aged exactly the
  timeout is returned), whether or not a sweep has removed the older ones. \<open>find\<close> returns
  one of the entries of \<open>findAll\<close> when there is one, for every value \<open>Math.random()\<close> can
  return, and null when there is none; it has no failing path.
\<close>

theorem findAll_live_entries:
  "findAll r now n = filter (\<lambda>e. name e = n \<and> now - timestamp e \<le> timeout r) (getAll r)
   \<and> (findAll r now n \<noteq> [] \<and> 0 \<le> rnd \<and> rnd < 1 \<longrightarrow>
        (\<exists>e \<in> set (findAll r now n). find_service r now rnd n = Value e))
   \<and> (findAll r now n = [] \<longrightarrow> find_service r now rnd n = Null)"
proof (intro conjI impI)
  show "findAll r now n = filter (\<lambda>e. name e = n \<and> now - timestamp e \<le> timeout r) (getAll r)"
    unfolding findAll_def getAll_def by (rule filter_cong) auto
next
  assume a: "findAll r now n \<noteq> [] \<and> 0 \<le> rnd \<and> rnd < 1"
  let ?found = "findAll r now n"
  let ?i = "\<lfloor>rnd * real (length ?found)\<rfloor>"
  from a have len: "0 < length ?found" by simp
  from a len have rng: "0 \<le> ?i \<and> ?i < int (length ?found)"
    by (intro floor_index_in_range) simp_all
  then have "nat ?i < length ?found" by linarith
  then have mem: "?found ! nat ?i \<in> set ?found" by (rule nth_mem)
  from len rng have "find_service r now rnd n = Value (?found ! nat ?i)"
    by (simp add: find_service_def Let_def array_get_def)
  with mem show "\<exists>e \<in> set ?found. find_service r now rnd n = Value e" by blast
next
  assume "findAll r now n = []"
  then show "find_service r now rnd n = Null"
    by (simp add: find_service_def)
qed

theorem findAll_live_entries_witness:
  "findAll (snd (register (snd (register (new_ServiceRegistry None None) 5
                  (JStr ''api'') (JStr ''localhost'') (JNum 3001) JUndefined))
               6 (JStr ''api'') (JStr ''localhost'') (JNum 3002) JUndefined))
      30005 (JStr ''api'') \<noteq> []
   \<and> (0 :: real) \<le> 1 / 2 \<and> (1 / 2 :: real) < 1
   \<and> map port (findAll (snd (register (snd (register (new_ServiceRegistry None None) 5
                  (JStr ''api'') (JStr ''localhost'') (JNum 3001) JUndefined))
               6 (JStr ''api'') (JStr ''localhost'') (JNum 3002) JUndefined))
      30005 (JStr ''api'')) = [JNum 3001, JNum 3002]
   \<and> map port (findAll (snd (register (snd (register (new_ServiceRegistry None None) 5
                  (JStr ''api'') (JStr ''localhost'') (JNum 3001) JUndefined))
               6 (JStr ''api'') (JStr ''localhost'') (JNum 3002) JUndefined))
      30006 (JStr ''api'')) = [JNum 3002]
   \<and> find_service (snd (register (snd (register (new_ServiceRegistry None None) 5
                  (JStr ''api'') (JStr ''localhost'') (JNum 3001) JUndefined))
               6 (JStr ''api'') (JStr ''localhost'') (JNum 3002) JUndefined))
      30005 (1 / 2) (JStr ''api'')
       = Value \<lparr> name = JStr ''api'', host = JStr ''localhost'', port = JNum 3002,
                   url = ''http://localhost:3002'', timestamp = 6, metadata = JRef ''{}'',
                   key = ''api:localhost:3002'' \<rparr>
   \<and> findAll (snd (register (snd (register (new_ServiceRegistry None None) 5
                  (JStr ''api'') (JStr ''localhost'') (JNum 3001) JUndefined))
               6 (JStr ''api'') (JStr ''localhost'') (JNum 3002) JUndefined))
      30005 (JStr ''otp'') = []
   \<and> find_service (snd (register (snd (register (new_ServiceRegistry None None) 5
                  (JStr ''api'') (JStr ''localhost'') (JNum 3001) JUndefined))
               6 (JStr ''api'') (JStr ''localhost'') (JNum 3002) JUndefined))
      30005 (1 / 2) (JStr ''otp'') = Null"
proof -
  let ?r2 = "snd (register (snd (register (new_ServiceRegistry None None) 5
                  (JStr ''api'') (JStr ''localhost'') (JNum 3001) JUndefined))
               6 (JStr ''api'') (JStr ''localhost'') (JNum 3002) JUndefined)"
  let ?e1 = "\<lparr> name = JStr ''api'', host = JStr ''localhost'', port = JNum 3001,
               url = ''http://localhost:3001'', timestamp = 5, metadata = JRef ''{}'',
               key = ''api:localhost:3001'' \<rparr>"
  let ?e2 = "\<lparr> name = JStr ''api'', host = JStr ''localhost'', port = JNum 3002,
               url = ''http://localhost:3002'', timestamp = 6, metadata = JRef ''{}'',
               key = ''api:localhost:3002'' \<rparr>"
  have r2: "?r2 = \<lparr> services = [(''api:localhost:3001'', ?e1), (''api:localhost:3002'', ?e2)],
                     timeout = 30000, cleanupInterval = 300000 \<rparr>"
    by (simp add: register_def new_ServiceRegistry_def option_or_def key_3001 key_3002 Let_def
          show_int_def show_nat.simps)
  have all: "getAll ?r2 = [?e1, ?e2]"
    by (simp add: r2 getAll_def)
  from findAll_live_entries [of ?r2 30005 "JStr ''api''"] all
  have f1: "findAll ?r2 30005 (JStr ''api'') = [?e1, ?e2]"
    by (simp add: r2)
  from findAll_live_entries [of ?r2 30006 "JStr ''api''"] all
  have f2: "findAll ?r2 30006 (JStr ''api'') = [?e2]"
    by (simp add: r2)
  from findAll_live_entries [of ?r2 30005 "JStr ''otp''"] all
  have f3: "findAll ?r2 30005 (JStr ''otp'') = []"
    by (simp add: r2)
  from findAll_live_entries [of ?r2 30005 "JStr ''otp''" "1 / 2"] f3
  have n: "find_service ?r2 30005 (1 / 2) (JStr ''otp'') = Null"
    by simp
  from findAll_live_entries [of ?r2 30005 "JStr ''api''" "1 / 2"] f1
  have m: "find_service ?r2 30005 (1 / 2) (JStr ''api'') = Value ?e1
         \<or> find_service ?r2 30005 (1 / 2) (JStr ''api'') = Value ?e2"
    by simp
  have "find_service ?r2 30005 (1 / 2) (JStr ''api'') \<noteq> Value ?e1"
    by (simp add: find_service_def f1 array_get_def)
  with m have v: "find_service ?r2 30005 (1 / 2) (JStr ''api'') = Value ?e2"
    by simp
  from f1 f2 f3 n v show ?thesis by simp
qed

subsection \<open>Sweep\<close>

lemma cleanup_fold:
  "fold (cleanup_step now tmo) xs (acc, c)
     = (filter (\<lambda>x. fst x \<notin> fst ` {y \<in> set xs. expired now tmo y}) acc,
        c + length (filter (expired now tmo) xs))"
proof (induction xs arbitrary: acc c)
  case Nil
  then show ?case by simp
next
  case (Cons x xs)
  show ?case
  proof (cases "expired now tmo x")
    case True
    then have step: "cleanup_step now tmo x (acc, c) = (AList.delete (fst x) acc, c + 1)"
      by (simp add: cleanup_step_def expired_def)
    have "filter (\<lambda>z. fst z \<notin> fst ` {y \<in> set xs. expired now tmo y}) (AList.delete (fst x) acc)
            = filter (\<lambda>z. fst z \<notin> fst ` {y \<in> set (x # xs). expired now tmo y}) acc"
      using True by (auto simp: AList.delete_eq intro!: filter_cong)
    with True step Cons.IH [of "AList.delete (fst x) acc" "c + 1"] show ?thesis by simp
  next
    case False
    then have step: "cleanup_step now tmo x (acc, c) = (acc, c)"
      by (simp add: cleanup_step_def expired_def)
    have "{y \<in> set (x # xs). expired now tmo y} = {y \<in> set xs. expired now tmo y}"
      using False by auto
    with False step Cons.IH [of acc c] show ?thesis by simp
  qed
qed

lemma cleanup_services:
  assumes "distinct (map fst (services r))"
  shows "services (fst (cleanup r now))
           = filter (\<lambda>x. now - timestamp (snd x) \<le> timeout r) (services r)"
proof -
  have "filter (\<lambda>x. fst x \<notin> fst ` {y \<in> set (services r). expired now (timeout r) y}) (services r)
          = filter (\<lambda>x. now - timestamp (snd x) \<le> timeout r) (services r)"
  proof (rule filter_cong [OF refl])
    fix x assume x: "x \<in> set (services r)"
    have "fst x \<in> fst ` {y \<in> set (services r). expired now (timeout r) y}
            \<longleftrightarrow> expired now (timeout r) x"
    proof
      assume "fst x \<in> fst ` {y \<in> set (services r). expired now (timeout r) y}"
      then obtain y where y: "y \<in> set (services r)" "expired now (timeout r) y" "fst y = fst x"
        by auto
      from assms x y(1) y(3) have "snd x = snd y"
        by (metis eq_key_imp_eq_value prod.collapse)
      with y show "expired now (timeout r) x" by (simp add: expired_def)
    next
      assume "expired now (timeout r) x"
      with x show "fst x \<in> fst ` {y \<in> set (services r). expired now (timeout r) y}" by auto
    qed
    then show "(fst x \<notin> fst ` {y \<in> set (services r). expired now (timeout r) y})
                 = (now - timestamp (snd x) \<le> timeout r)"
      by (auto simp: expired_def)
  qed
  then show ?thesis
    by (simp add: cleanup_def cleanup_fold)
qed

lemma cleanup_keeps_distinct:
  assumes "distinct (map fst (services r))"
  shows "distinct (map fst (services (fst (cleanup r now))))"
  using assms by (simp add: cleanup_services distinct_map_filter)

lemma cleanup_count:
  "snd (cleanup r now) = length (filter (\<lambda>x. now - timestamp (snd x) > timeout r) (services r))"
  by (simp add: cleanup_def cleanup_fold expired_def [abs_def])

lemma cleanup_settings:
  "timeout (fst (cleanup r now)) = timeout r \<and> cleanupInterval (fst (cleanup r now)) = cleanupInterval r"
  by (simp add: cleanup_def split: prod.splits)

text \<open>
  C4. On a store with one entry per key, one run of the sweep at time \<open>now\<close> leaves exactly
  the entries whose age is at most the timeout, unchanged and in order, and deletes the
  others, which it counts; the settings of the registry stay. An entry aged exactly the
  timeout survives the sweep and is returned by \<open>findAll\<close>. \<open>getAll\<close> lists every stored
  entry whatever its age, so a stale entry is listed until a sweep runs, and no entry older
  than the timeout is listed after the sweep. The defaults are a timeout of 30000 ms and a
  sweep interval of 300000 ms.
\<close>

theorem cleanup_deletes_exactly_expired:
  assumes "distinct (map fst (services r))"
  shows "services (fst (cleanup r now))
           = filter (\<lambda>x. now - timestamp (snd x) \<le> timeout r) (services r)
       \<and> snd (cleanup r now)
           = length (filter (\<lambda>x. now - timestamp (snd x) > timeout r) (services r))
       \<and> timeout (fst (cleanup r now)) = timeout r
       \<and> cleanupInterval (fst (cleanup r now)) = cleanupInterval r
       \<and> (\<forall>x \<in> set (services r). now - timestamp (snd x) = timeout r \<longrightarrow>
             x \<in> set (services (fst (cleanup r now)))
           \<and> snd x \<in> set (findAll r now (name (snd x))))
       \<and> set (getAll r) = snd ` set (services r)
       \<and> (\<forall>e. now - timestamp e > timeout r \<longrightarrow> e \<notin> set (getAll (fst (cleanup r now))))
       \<and> timeout (new_ServiceRegistry None None) = 30000
       \<and> cleanupInterval (new_ServiceRegistry None None) = 300000"
proof -
  have svc: "services (fst (cleanup r now))
           = filter (\<lambda>x. now - timestamp (snd x) \<le> timeout r) (services r)"
    using assms by (rule cleanup_services)
  have boundary: "\<forall>x \<in> set (services r). now - timestamp (snd x) = timeout r \<longrightarrow>
             x \<in> set (services (fst (cleanup r now)))
           \<and> snd x \<in> set (findAll r now (name (snd x)))"
    by (auto simp: svc findAll_def)
  have raw: "set (getAll r) = snd ` set (services r)"
    by (simp add: getAll_def)
  have gone: "\<forall>e. now - timestamp e > timeout r \<longrightarrow> e \<notin> set (getAll (fst (cleanup r now)))"
    by (auto simp: svc getAll_def)
  have dflt: "timeout (new_ServiceRegistry None None) = 30000
       \<and> cleanupInterval (new_ServiceRegistry None None) = 300000"
    by (simp add: new_ServiceRegistry_def option_or_def)
  from svc boundary raw gone dflt cleanup_count [of r now] cleanup_settings [of r now]
  show ?thesis by blast
qed

theorem cleanup_deletes_exactly_expired_witness:
  "distinct (map fst (services (snd (register (snd (register (new_ServiceRegistry None None) 0
                  (JStr ''api'') (JStr ''localhost'') (JNum 3001) JUndefined))
               10000 (JStr ''api'') (JStr ''localhost'') (JNum 3002) JUndefined))))
   \<and> map timestamp (getAll (snd (register (snd (register (new_ServiceRegistry None None) 0
                  (JStr ''api'') (JStr ''localhost'') (JNum 3001) JUndefined))
               10000 (JStr ''api'') (JStr ''localhost'') (JNum 3002) JUndefined))) = [0, 10000]
   \<and> map timestamp (getAll (fst (cleanup
          (snd (register (snd (register (new_ServiceRegistry None None) 0
                  (JStr ''api'') (JStr ''localhost'') (JNum 3001) JUndefined))
               10000 (JStr ''api'') (JStr ''localhost'') (JNum 3002) JUndefined)) 40000)))
        = [10000]
   \<and> snd (cleanup
          (snd (register (snd (register (new_ServiceRegistry None None) 0
                  (JStr ''api'') (JStr ''localhost'') (JNum 3001) JUndefined))
               10000 (JStr ''api'') (JStr ''localhost'') (JNum 3002) JUndefined)) 40000) = 1"
proof -
  let ?r2 = "snd (register (snd (register (new_ServiceRegistry None None) 0
                  (JStr ''api'') (JStr ''localhost'') (JNum 3001) JUndefined))
               10000 (JStr ''api'') (JStr ''localhost'') (JNum 3002) JUndefined)"
  let ?e1 = "\<lparr> name = JStr ''api'', host = JStr ''localhost'', port = JNum 3001,
               url = ''http://localhost:3001'', timestamp = 0, metadata = JRef ''{}'',
               key = ''api:localhost:3001'' \<rparr>"
  let ?e2 = "\<lparr> name = JStr ''api'', host = JStr ''localhost'', port = JNum 3002,
               url = ''http://localhost:3002'', timestamp = 10000, metadata = JRef ''{}'',
               key = ''api:localhost:3002'' \<rparr>"
  have r2: "?r2 = \<lparr> services = [(''api:localhost:3001'', ?e1), (''api:localhost:3002'', ?e2)],
                     timeout = 30000, cleanupInterval = 300000 \<rparr>"
    by (simp add: register_def new_ServiceRegistry_def option_or_def key_3001 key_3002 Let_def
          show_int_def show_nat.simps)
  have wf: "distinct (map fst (services ?r2))"
    by (simp add: r2)
  have before: "map timestamp (getAll ?r2) = [0, 10000]"
    by (simp add: r2 getAll_def)
  from cleanup_deletes_exactly_expired [OF wf, of 40000]
  have "services (fst (cleanup ?r2 40000)) = [(''api:localhost:3002'', ?e2)]
        \<and> snd (cleanup ?r2 40000) = 1"
    by (simp add: r2)
  then have after: "map timestamp (getAll (fst (cleanup ?r2 40000))) = [10000]"
      and count: "snd (cleanup ?r2 40000) = 1"
    by (simp_all add: getAll_def)
  from wf before after count show ?thesis by simp
qed

subsection \<open>Removal\<close>




section \<open>Properties of the factory\<close>

lemma known_or_inherited:
  "truthy (get_prop serviceTypes type)
     \<longleftrightarrow> type \<in> {''api-gateway'', ''api'', ''otp''} \<or> type \<in> set object_prototype_keys"
  by (simp add: get_prop_def serviceTypes_def)

lemma createService_failure_keeps_factory:
  "isl (fst (createService ev f type options)) \<Longrightarrow> snd (createService ev f type options) = f"
  by (auto simp: createService_def Let_def split: if_splits sum.splits)

text \<open>
  C6 (as amended). A type string that is not empty, is none of api-gateway, api and otp, and
  is not the name of a property every object inherits, makes \<open>createService\<close> fail with
  UnsupportedType; the empty type string makes it fail with the error "Service type is
  required". Whenever \<open>createService\<close> fails, on any path, the factory is the one before the
  call, so \<open>getAllServices\<close> returns the instances it held before.
\<close>

theorem createService_unknown_type:
  "(type \<noteq> [] \<and> type \<notin> {''api-gateway'', ''api'', ''otp''} \<and> type \<notin> set object_prototype_keys \<longrightarrow>
      createService ev f type options = (Inl (UnsupportedType type), f))
   \<and> createService ev f [] options = (Inl TypeRequired, f)
   \<and> (isl (fst (createService ev f type options)) \<longrightarrow>
        snd (createService ev f type options) = f
      \<and> getAllServices (snd (createService ev f type options)) = getAllServices f)"
proof (intro conjI impI)
  assume "type \<noteq> [] \<and> type \<notin> {''api-gateway'', ''api'', ''otp''} \<and> type \<notin> set object_prototype_keys"
  then have "type \<noteq> []" and "\<not> truthy (get_prop serviceTypes type)"
    by (simp_all add: known_or_inherited)
  then show "createService ev f type options = (Inl (UnsupportedType type), f)"
    by (simp add: createService_def)
next
  show "createService ev f [] options = (Inl TypeRequired, f)"
    by (simp add: createService_def)
next
  assume a: "isl (fst (createService ev f type options))"
  then show "snd (createService ev f type options) = f"
    by (rule createService_failure_keeps_factory)
  from a show "getAllServices (snd (createService ev f type options)) = getAllServices f"
    by (simp add: createService_failure_keeps_factory)
qed

lemmas factory_eval = createService_def get_prop_def serviceTypes_def portMap_def getDefaultPort_def
  getConfigPath_def initializeMessageBroker_def require_module_def default_environment_def
  repository_modules_def new_ServiceFactory_def new_ServiceRegistry_def option_or_def
  new_OTPService_def new_APIService_def new_BaseService_def spread_def js_or_def
  object_prototype_keys_def show_int_def show_nat.simps Let_def getAllServices_def

theorem createService_unknown_type_witness:
  "''unknown-type'' \<noteq> [] \<and> ''unknown-type'' \<notin> {''api-gateway'', ''api'', ''otp''}
   \<and> ''unknown-type'' \<notin> set object_prototype_keys
   \<and> createService default_environment (new_ServiceFactory None None) ''unknown-type'' []
        = (Inl (UnsupportedType ''unknown-type''), new_ServiceFactory None None)
   \<and> isl (fst (createService default_environment (new_ServiceFactory None None) ''unknown-type'' []))
   \<and> getAllServices (snd (createService default_environment (new_ServiceFactory None None)
                            ''unknown-type'' [])) = []"
proof -
  have h: "''unknown-type'' \<noteq> [] \<and> ''unknown-type'' \<notin> {''api-gateway'', ''api'', ''otp''}
            \<and> ''unknown-type'' \<notin> set object_prototype_keys"
    by (simp add: object_prototype_keys_def)
  from createService_unknown_type [of "''unknown-type''" default_environment
      "new_ServiceFactory None None" "[]"] h
  have r: "createService default_environment (new_ServiceFactory None None) ''unknown-type'' []
        = (Inl (UnsupportedType ''unknown-type''), new_ServiceFactory None None)"
    by blast
  then have i: "isl (fst (createService default_environment (new_ServiceFactory None None)
                            ''unknown-type'' []))"
    by simp
  from r have g: "getAllServices (snd (createService default_environment
                    (new_ServiceFactory None None) ''unknown-type'' [])) = []"
    by (simp add: getAllServices_def new_ServiceFactory_def)
  from h r i g show ?thesis by blast
qed

text \<open>
  The claim as stated fails at the empty type string, which is in no set of known types and
  is refused with another error, before the table of types is looked at; and at a name such
  as \<open>constructor\<close>, which the table inherits: the check lets it pass and the call fails
  later, when the module is loaded.
\<close>

theorem createService_unknown_type_counterexample:
  "'''' \<notin> {''api-gateway'', ''api'', ''otp''}
   \<and> fst (createService default_environment (new_ServiceFactory None None) '''' []) = Inl TypeRequired
   \<and> ''constructor'' \<notin> {''api-gateway'', ''api'', ''otp''}
   \<and> fst (createService default_environment (new_ServiceFactory None None) ''constructor'' [])
        = Inl (ModuleError ''The id argument must be of type string'')"
  by (simp add: factory_eval)

subsection \<open>The port of a created service\<close>

lemma map_of_spread: "map_of (spread base opts) = map_of base ++ map_of (rev opts)"
proof (induction opts arbitrary: base)
  case Nil
  then show ?case by (simp add: spread_def)
next
  case (Cons kv opts)
  obtain k v where kv: "kv = (k, v)" by (cases kv)
  have "map_of (spread base (kv # opts)) = map_of (spread (AList.update k v base) opts)"
    by (simp add: spread_def kv)
  also have "\<dots> = map_of (AList.update k v base) ++ map_of (rev opts)"
    by (rule Cons.IH)
  also have "\<dots> = map_of base ++ map_of (rev (kv # opts))"
    by (simp add: update_conv' kv map_add_def fun_eq_iff split: option.splits)
  finally show ?case .
qed

lemma distinct_spread:
  "distinct (map fst base) \<Longrightarrow> distinct (map fst (spread base opts))"
proof (induction opts arbitrary: base)
  case Nil
  then show ?case by (simp add: spread_def)
next
  case (Cons kv opts)
  obtain k v where kv: "kv = (k, v)" by (cases kv)
  from Cons.prems have "distinct (map fst (AList.update k v base))"
    by (simp add: distinct_update)
  from Cons.IH [OF this] show ?case by (simp add: spread_def kv)
qed

lemma map_of_rev_distinct:
  assumes "distinct (map fst xs)"
  shows "map_of (rev xs) = map_of xs"
proof -
  from assms have "distinct (map fst (rev xs))" by (simp add: rev_map [symmetric])
  with assms show ?thesis by (simp add: map_of_inject_set)
qed

text \<open>Reading a property of a spread: the last write of the overlay, else the base.\<close>

lemma get_prop_spread:
  "get_prop (spread base opts) k =
     (case map_of (rev opts) k of Some v \<Rightarrow> v | None \<Rightarrow> get_prop base k)"
  by (simp add: get_prop_def map_of_spread map_add_def split: option.splits)

lemma get_prop_port_not_inherited [simp]: "''port'' \<notin> set object_prototype_keys"
  by (simp add: object_prototype_keys_def)

text \<open>The port of a service built by the API or OTP constructor from given options.\<close>

lemma subclass_port:
  assumes "distinct (map fst so)"
  shows "service_port (new_OTPService cfg so)
           = (case map_of so ''port'' of
                Some v \<Rightarrow> js_or v (JNum 3000)
              | None \<Rightarrow> js_or (js_or JUndefined cfg) (JNum 3000))"
    and "service_port (new_APIService cfg so)
           = (case map_of so ''port'' of
                Some v \<Rightarrow> js_or v (JNum 3000)
              | None \<Rightarrow> js_or (js_or JUndefined cfg) (JNum 3000))"
proof -
  have m: "map_of (rev so) = map_of so"
    using assms by (rule map_of_rev_distinct)
  have own: "get_prop so ''port'' = (case map_of so ''port'' of Some v \<Rightarrow> v | None \<Rightarrow> JUndefined)"
    by (simp add: get_prop_def)
  have p: "get_prop (spread [(''name'', n), (''port'', x)] so) ''port''
             = (case map_of so ''port'' of Some v \<Rightarrow> v | None \<Rightarrow> x)" for n x
    by (subst get_prop_spread) (simp add: m get_prop_def split: option.splits)
  show "service_port (new_OTPService cfg so)
           = (case map_of so ''port'' of
                Some v \<Rightarrow> js_or v (JNum 3000)
              | None \<Rightarrow> js_or (js_or JUndefined cfg) (JNum 3000))"
    by (simp add: new_OTPService_def new_BaseService_def p own split: option.splits)
  show "service_port (new_APIService cfg so)
           = (case map_of so ''port'' of
                Some v \<Rightarrow> js_or v (JNum 3000)
              | None \<Rightarrow> js_or (js_or JUndefined cfg) (JNum 3000))"
    by (simp add: new_APIService_def new_BaseService_def p own split: option.splits)
qed

lemma createService_port:
  assumes ty: "type = ''api'' \<or> type = ''otp''"
    and mods: "modules ev = repository_modules api_port otp_port gw"
    and conn: "broker_connect ev = Inr b"
  shows "\<exists>sv. fst (createService ev f type options) = Inr sv
           \<and> service_port sv =
               (case map_of (rev options) ''port'' of
                  None \<Rightarrow> getDefaultPort type
                | Some v \<Rightarrow> if truthy v then v else JNum 3000)"
proof -
  let ?base = "[(''name'', JStr type),
                (''port'', js_or (get_prop options ''port'') (getDefaultPort type)),
                (''connection'', fst b), (''channel'', snd b),
                (''configPath'', js_or (get_prop options ''configPath'')
                                       (getConfigPath (cwd ev) type (get_prop options ''env''))),
                (''env'', js_or (js_or (get_prop options ''env'') (node_env ev))
                                (JStr ''development'')),
                (''registry'', JRef ''registry'')]"
  let ?so = "spread ?base options"
  have d: "distinct (map fst ?so)" by (rule distinct_spread) simp
  have dp: "truthy (getDefaultPort type)"
    using ty by (auto simp: getDefaultPort_def portMap_def get_prop_def js_or_def)
  have port_so: "map_of ?so ''port'' =
        Some (case map_of (rev options) ''port'' of
                None \<Rightarrow> js_or (get_prop options ''port'') (getDefaultPort type)
              | Some v \<Rightarrow> v)"
    by (simp add: map_of_spread map_add_def split: option.splits)
  have absent: "map_of (rev options) ''port'' = None \<Longrightarrow> get_prop options ''port'' = JUndefined"
  proof -
    assume "map_of (rev options) ''port'' = None"
    then have "''port'' \<notin> fst ` set options"
      by (simp add: map_of_eq_None_iff)
    then have "map_of options ''port'' = None"
      by (simp add: map_of_eq_None_iff)
    then show ?thesis by (simp add: get_prop_def)
  qed
  have cls: "fst (createService ev f type options)
               = Inr (if type = ''api'' then new_APIService api_port ?so
                      else new_OTPService otp_port ?so)"
    using ty conn mods
    by (auto simp: createService_def Let_def get_prop_def serviceTypes_def
          initializeMessageBroker_def require_module_def repository_modules_def)
  show ?thesis
  proof (cases "map_of (rev options) ''port''")
    case None
    with absent have u: "get_prop options ''port'' = JUndefined" by simp
    from None dp u cls subclass_port [OF d] port_so show ?thesis
      by (auto simp: js_or_def)
  next
    case (Some v)
    with cls subclass_port [OF d] port_so show ?thesis
      by (auto simp: js_or_def)
  qed
qed

text \<open>
  C7. The code does not do what the claim says when the options object has a \<open>port\<close>
  property whose value is not usable, which is the object \<open>main\<close> always builds
  (\<open>{port, env}\<close> with \<open>port\<close> undefined): \<open>createService\<close> computes the default port 3002 of
  otp, then \<open>...options\<close> writes the undefined \<open>port\<close> over it, the constructor of the service
  does the same, and the base constructor falls back to 3000. (Lemma \<open>createService_port\<close>
  above gives the port in every case: the default of the table when the options have no
  \<open>port\<close> property, the given port when it is truthy, 3000 otherwise.)
\<close>

theorem default_port_overwritten_by_spread:
  "getDefaultPort ''otp'' = JNum 3002
   \<and> \<not> truthy (get_prop [(''port'', JUndefined), (''env'', JStr ''development'')] ''port'')
   \<and> \<not> isl (fst (createService default_environment (new_ServiceFactory None None) ''otp''
                  [(''port'', JUndefined), (''env'', JStr ''development'')]))
   \<and> service_port (projr (fst (createService default_environment (new_ServiceFactory None None)
                  ''otp'' [(''port'', JUndefined), (''env'', JStr ''development'')]))) = JNum 3000"
  by (simp add: factory_eval)

section \<open>Properties of the command line\<close>

lemmas cli_eval = index_main_def main_options_def read_argument_def startsWith_def toLowerCase_def

lemma fold_read_argument_port:
  "fst (snd (fold read_argument args (sn, pt, e))) = pt"
  by (induction args arbitrary: sn pt e) (auto simp: read_argument_def)

lemma fold_read_argument_no_service:
  "\<forall>arg \<in> set args. \<not> startsWith arg ''-s='' \<Longrightarrow> fst (fold read_argument args (sn, pt, e)) = sn"
  by (induction args arbitrary: sn pt e) (auto simp: read_argument_def)

lemma fold_read_argument_no_env:
  "\<forall>arg \<in> set args. \<not> startsWith arg ''-e='' \<Longrightarrow> snd (snd (fold read_argument args (sn, pt, e))) = e"
  by (induction args arbitrary: sn pt e) (auto simp: read_argument_def)

lemma missing_service_flag_exits:
  assumes "\<forall>arg \<in> set args. \<not> startsWith arg ''-s=''"
  shows "index_main ev f args
           = (Exit 1 ''Invalid arguments. Please provide service name (e.g., -s=api-gateway).'', f)"
proof -
  obtain sn pt e where st: "fold read_argument args (JUndefined, JUndefined, ''development'') = (sn, pt, e)"
    by (metis prod_cases3)
  from fold_read_argument_no_service [OF assms, of JUndefined JUndefined "''development''"] st
  have "sn = JUndefined" by simp
  with st show ?thesis by (simp add: index_main_def)
qed

lemma environment_defaults_to_development:
  assumes "\<forall>arg \<in> set args. \<not> startsWith arg ''-e=''"
  shows "get_prop (main_options args) ''env'' = JStr ''development''"
proof -
  obtain sn pt e where st: "fold read_argument args (JUndefined, JUndefined, ''development'') = (sn, pt, e)"
    by (metis prod_cases3)
  from fold_read_argument_no_env [OF assms, of JUndefined JUndefined "''development''"] st
  have "e = ''development''" by simp
  with st show ?thesis by (simp add: main_options_def get_prop_def)
qed

text \<open>
  C9. A launch without a \<open>-s=\<close> argument exits with status 1 and a message
  (\<open>missing_service_flag_exits\<close>), and the environment is development when no \<open>-e=\<close> argument
  is given (\<open>environment_defaults_to_development\<close>). The loop over the arguments has no
  branch for \<open>-p=\<close>, though: whatever the arguments, the \<open>port\<close> that \<open>main\<close> hands to
  \<open>createService\<close> is undefined. Launched with \<open>-s=otp -p=4000\<close>, the service is created
  with port 3000, not 4000.
\<close>

theorem port_flag_never_read:
  "get_prop (main_options args) ''port'' = JUndefined
   \<and> main_options [''-s=otp'', ''-p=4000''] = [(''port'', JUndefined), (''env'', JStr ''development'')]
   \<and> fst (index_main default_environment (new_ServiceFactory None None) [''-s=otp'', ''-p=4000''])
       = Start \<lparr> service_name = JStr ''otp'', service_port = JNum 3000,
                    connection = JRef ''connection'', channel = JRef ''channel'',
                    configPath = JStr ''/app/config/development-service-config.json'',
                    env = JStr ''development'', registry = JRef ''registry'',
                    registryInfo = None, isRunning = False, queues = [], exchanges = [] \<rparr>"
proof -
  obtain sn pt e where st: "fold read_argument args (JUndefined, JUndefined, ''development'') = (sn, pt, e)"
    by (metis prod_cases3)
  from fold_read_argument_port [of args JUndefined JUndefined "''development''"] st
  have "pt = JUndefined" by simp
  with st have a: "get_prop (main_options args) ''port'' = JUndefined"
    by (simp add: main_options_def get_prop_def)
  have b: "main_options [''-s=otp'', ''-p=4000''] = [(''port'', JUndefined), (''env'', JStr ''development'')]"
    by (simp add: cli_eval)
  have c: "fst (index_main default_environment (new_ServiceFactory None None) [''-s=otp'', ''-p=4000''])
       = Start \<lparr> service_name = JStr ''otp'', service_port = JNum 3000,
                    connection = JRef ''connection'', channel = JRef ''channel'',
                    configPath = JStr ''/app/config/development-service-config.json'',
                    env = JStr ''development'', registry = JRef ''registry'',
                    registryInfo = None, isRunning = False, queues = [], exchanges = [] \<rparr>"
    by (simp add: cli_eval factory_eval)
  from a b c show ?thesis by simp
qed

section \<open>Properties of the broker helpers\<close>

lemma on_message_success:
  "callback (decode_content parse (content msg)) msg = Inr u
     \<Longrightarrow> on_message parse callback (Some msg) = [Ack msg]"
  by (simp add: on_message_def)

lemma on_message_failure:
  "callback (decode_content parse (content msg)) msg = Inl err
     \<Longrightarrow> on_message parse callback (Some msg) = [Nack msg False True]"
  by (simp add: on_message_def)

lemma always_failing_redelivered:
  assumes "\<forall>p m. isl (callback p m)"
  shows "deliveries n parse callback (msg # q) = (replicate n (Nack msg False True), msg # q)"
proof (induction n)
  case 0
  then show ?case by simp
next
  case (Suc n)
  from assms obtain err where "callback (decode_content parse (content msg)) msg = Inl err"
    by (metis isl_def)
  then have "on_message parse callback (Some msg) = [Nack msg False True]"
    by (rule on_message_failure)
  with Suc show ?case
    by (simp add: replicate_append_same)
qed

lemma consumeFromQueue_installs:
  "truthy (channel sv) \<Longrightarrow>
     fst (consumeFromQueue parse sv calls queueName callback) = Inr (on_message parse callback)"
  by (simp add: consumeFromQueue_def Let_def split: prod.splits)

text \<open>
  C8. With a channel, \<open>consumeFromQueue\<close> installs the consumer \<open>on_message\<close>. For a delivered
  message, when the handler succeeds the consumer makes exactly one call on the channel, the
  ack of that message, which takes it off the queue; when the handler throws it makes
  exactly one call, the nack of that message with requeue, and no ack, and the message stays
  at the head of the queue. With a handler that throws on every message, any number \<open>n\<close> of
  deliveries are \<open>n\<close> deliveries of the same message, each answered by a nack with requeue;
  no ack occurs and the queue is as it was. A cancellation (\<open>null\<close>) makes no call.
\<close>

theorem consumer_ack_or_requeue:
  "(truthy (channel sv) \<longrightarrow>
       fst (consumeFromQueue parse sv calls queueName callback) = Inr (on_message parse callback))
   \<and> (callback (decode_content parse (content msg)) msg = Inr u \<longrightarrow>
       on_message parse callback (Some msg) = [Ack msg]
     \<and> deliveries (Suc 0) parse callback (msg # q) = ([Ack msg], q))
   \<and> (callback (decode_content parse (content msg)) msg = Inl err \<longrightarrow>
       on_message parse callback (Some msg) = [Nack msg False True]
     \<and> deliveries (Suc 0) parse callback (msg # q) = ([Nack msg False True], msg # q))
   \<and> ((\<forall>p m. isl (callback p m)) \<longrightarrow>
       deliveries n parse callback (msg # q) = (replicate n (Nack msg False True), msg # q)
     \<and> Ack msg \<notin> set (fst (deliveries n parse callback (msg # q))))
   \<and> on_message parse callback None = []"
proof (intro conjI impI)
  assume "truthy (channel sv)"
  then show "fst (consumeFromQueue parse sv calls queueName callback)
               = Inr (on_message parse callback)"
    by (rule consumeFromQueue_installs)
next
  assume a: "callback (decode_content parse (content msg)) msg = Inr u"
  then show s: "on_message parse callback (Some msg) = [Ack msg]"
    by (rule on_message_success)
  then show "deliveries (Suc 0) parse callback (msg # q) = ([Ack msg], q)"
    by simp
next
  assume a: "callback (decode_content parse (content msg)) msg = Inl err"
  then show s: "on_message parse callback (Some msg) = [Nack msg False True]"
    by (rule on_message_failure)
  then show "deliveries (Suc 0) parse callback (msg # q) = ([Nack msg False True], msg # q)"
    by simp
next
  assume a: "\<forall>p m. isl (callback p m)"
  then show r: "deliveries n parse callback (msg # q) = (replicate n (Nack msg False True), msg # q)"
    by (rule always_failing_redelivered)
  then show "Ack msg \<notin> set (fst (deliveries n parse callback (msg # q)))"
    by simp
next
  show "on_message parse callback None = []"
    by (simp add: on_message_def)
qed

theorem consumer_ack_or_requeue_witness:
  "truthy (channel (new_BaseService [(''channel'', JRef ''channel'')]))
   \<and> on_message parse_integer (\<lambda>p m. Inr ()) (Some \<lparr>content = ''7'', deliveryTag = 1\<rparr>)
      = [Ack \<lparr>content = ''7'', deliveryTag = 1\<rparr>]
   \<and> deliveries (Suc 0) parse_integer (\<lambda>p m. Inr ()) [\<lparr>content = ''7'', deliveryTag = 1\<rparr>]
      = ([Ack \<lparr>content = ''7'', deliveryTag = 1\<rparr>], [])
   \<and> on_message parse_integer (\<lambda>p m. Inl (OtherError ''handler failed''))
        (Some \<lparr>content = ''7'', deliveryTag = 1\<rparr>)
      = [Nack \<lparr>content = ''7'', deliveryTag = 1\<rparr> False True]
   \<and> deliveries 3 parse_integer (\<lambda>p m. Inl (OtherError ''handler failed''))
        [\<lparr>content = ''7'', deliveryTag = 1\<rparr>]
      = ([Nack \<lparr>content = ''7'', deliveryTag = 1\<rparr> False True,
          Nack \<lparr>content = ''7'', deliveryTag = 1\<rparr> False True,
          Nack \<lparr>content = ''7'', deliveryTag = 1\<rparr> False True],
         [\<lparr>content = ''7'', deliveryTag = 1\<rparr>])
   \<and> fst (consumeFromQueue parse_integer (new_BaseService [(''channel'', JRef ''channel'')])
                 [] ''otp.requests'' (\<lambda>p m. Inr ()))
      = Inr (on_message parse_integer (\<lambda>p m. Inr ()))
   \<and> isl (fst (consumeFromQueue parse_integer (new_BaseService []) [] ''otp.requests''
                 (\<lambda>p m. Inr ())))
   \<and> snd (snd (consumeFromQueue parse_integer (new_BaseService [(''channel'', JRef ''channel'')])
                 [] ''otp.requests'' (\<lambda>p m. Inr ())))
      = [AssertQueue ''otp.requests'', Consume ''otp.requests'']"
proof -
  let ?m = "\<lparr>content = ''7'', deliveryTag = 1\<rparr>"
  let ?ok = "\<lambda>(p :: int payload) (m :: message). (Inr () :: error + unit)"
  let ?bad = "\<lambda>(p :: int payload) (m :: message). (Inl (OtherError ''handler failed'') :: error + unit)"
  note ok = consumer_ack_or_requeue [where callback = ?ok and parse = parse_integer and msg = ?m
      and u = "()" and q = "[]"]
  note bad = consumer_ack_or_requeue [where callback = ?bad and parse = parse_integer and msg = ?m
      and err = "OtherError ''handler failed''" and q = "[]" and n = 3]
  from ok have a: "on_message parse_integer ?ok (Some ?m) = [Ack ?m]
      \<and> deliveries (Suc 0) parse_integer ?ok [?m] = ([Ack ?m], [])"
    by simp
  from bad have b: "on_message parse_integer ?bad (Some ?m) = [Nack ?m False True]"
    by simp
  from bad have c: "deliveries 3 parse_integer ?bad [?m]
      = (replicate 3 (Nack ?m False True), [?m])"
    by simp
  have r: "replicate 3 (Nack ?m False True) = [Nack ?m False True, Nack ?m False True, Nack ?m False True]"
    by (simp add: numeral_3_eq_3)
  have ch: "truthy (channel (new_BaseService [(''channel'', JRef ''channel'')]))"
    by (simp add: new_BaseService_def get_prop_def)
  from ch consumer_ack_or_requeue [where callback = ?ok and parse = parse_integer
      and sv = "new_BaseService [(''channel'', JRef ''channel'')]" and calls = "[]"
      and queueName = "''otp.requests''"]
  have cons: "fst (consumeFromQueue parse_integer (new_BaseService [(''channel'', JRef ''channel'')])
                 [] ''otp.requests'' ?ok) = Inr (on_message parse_integer ?ok)"
    by blast
  have no: "isl (fst (consumeFromQueue parse_integer (new_BaseService []) [] ''otp.requests'' ?ok))"
    by (simp add: consumeFromQueue_def new_BaseService_def get_prop_def object_prototype_keys_def)
  have inst: "snd (snd (consumeFromQueue parse_integer
                  (new_BaseService [(''channel'', JRef ''channel'')]) [] ''otp.requests'' ?ok))
      = [AssertQueue ''otp.requests'', Consume ''otp.requests'']"
    by (simp add: consumeFromQueue_def registerQueue_def new_BaseService_def get_prop_def
          object_prototype_keys_def js_or_def Let_def)
  from a b c r ch cons no inst show ?thesis by simp
qed

subsection \<open>Round trip\<close>

lemma show_nat_not_empty: "show_nat n \<noteq> []"
  by (subst show_nat.simps) simp

lemma show_nat_zero_iff: "read_nat (show_nat n) = 0 \<longleftrightarrow> n = 0"
  by (simp add: read_show_nat)

lemma parse_nat_numeral:
  "parse_integer (show_nat n) = Some (OtherValue (int n))"
proof -
  obtain c cs where s: "show_nat n = c # cs"
    using show_nat_not_empty [of n] by (cases "show_nat n") auto
  with show_nat_no_minus [of n cs] have c: "c \<noteq> CHR ''-''" by auto
  have "set (c # cs) \<subseteq> set ''0123456789''"
    using show_nat_digits [of n] s by simp
  moreover have "show_nat (read_nat (c # cs)) = c # cs" "read_nat (c # cs) = n"
    using s read_show_nat [of n] by simp_all
  ultimately have "parse_integer (c # cs) = Some (OtherValue (int n))"
    using c unfolding parse_integer_def by (simp del: set_simps)
  with s show ?thesis by simp
qed

lemma parse_stringify_integer:
  "stringify_integer i = Some (show_int i) \<and> parse_integer (show_int i) = Some (OtherValue i)"
proof (cases "i < 0")
  case False
  then show ?thesis
    by (simp add: stringify_integer_def show_int_def parse_nat_numeral)
next
  case True
  let ?n = "nat (- i)"
  from True have n: "?n \<noteq> 0" "- int ?n = i" by simp_all
  have "show_nat ?n \<noteq> []" by (rule show_nat_not_empty)
  moreover have "set (show_nat ?n) \<subseteq> set ''0123456789''" by (rule show_nat_digits)
  moreover have "read_nat (show_nat ?n) = ?n" by (rule read_show_nat)
  ultimately have "parse_integer (CHR ''-'' # show_nat ?n) = Some (OtherValue (- int ?n))"
    using n(1) unfolding parse_integer_def by (simp del: set_simps)
  with True n show ?thesis
    by (simp add: stringify_integer_def show_int_def)
qed

lemma publish_sends:
  assumes "truthy (channel sv)" "message_content stringify msg = Inr bytes"
  shows "fst (publishToQueue stringify sv calls q msg) = Inr True"
    and "\<exists>before. snd (snd (publishToQueue stringify sv calls q msg))
            = before @ [SendToQueue q bytes]"
  using assms by (auto simp: publishToQueue_def registerQueue_def Let_def split: prod.splits)

text \<open>
  C10. Let \<open>j\<close> be a message that is not a string and that the encoding represents:
  \<open>JSON.stringify\<close> gives bytes for it and \<open>JSON.parse\<close> of these bytes gives \<open>j\<close> back. Then
  \<open>publishToQueue\<close> sends exactly these bytes, the decoding step of the consumer turns them
  into \<open>j\<close>, and the consumer calls the handler on \<open>j\<close> (its calls on the channel are those
  the handler's result on \<open>j\<close> determines). A string message is sent as it is. A payload that
  \<open>JSON.parse\<close> rejects is decoded to the payload itself, as a string, and the handler is
  called on that string; decoding has no failing path. Every integer is such a \<open>j\<close>: its
  numeral is what is sent, and the numeral is decoded to the integer.
\<close>

theorem publish_consume_round_trip:
  "(stringify j = Some bytes \<and> parse bytes = Some (OtherValue j) \<longrightarrow>
       message_content stringify (OtherValue j) = Inr bytes
     \<and> decode_content parse bytes = OtherValue j
     \<and> on_message parse callback (Some \<lparr>content = bytes, deliveryTag = t\<rparr>)
         = (case callback (OtherValue j) \<lparr>content = bytes, deliveryTag = t\<rparr> of
              Inr u \<Rightarrow> [Ack \<lparr>content = bytes, deliveryTag = t\<rparr>]
            | Inl e \<Rightarrow> [Nack \<lparr>content = bytes, deliveryTag = t\<rparr> False True])
     \<and> (truthy (channel sv) \<longrightarrow>
          fst (publishToQueue stringify sv calls q (OtherValue j)) = Inr True
        \<and> last (snd (snd (publishToQueue stringify sv calls q (OtherValue j))))
            = SendToQueue q bytes))
   \<and> message_content stringify (StringValue s) = Inr s
   \<and> (truthy (channel sv) \<longrightarrow>
        fst (publishToQueue stringify sv calls q (StringValue s)) = Inr True
      \<and> last (snd (snd (publishToQueue stringify sv calls q (StringValue s)))) = SendToQueue q s)
   \<and> (parse raw = None \<longrightarrow>
        decode_content parse raw = StringValue raw
      \<and> on_message parse callback (Some \<lparr>content = raw, deliveryTag = t\<rparr>)
          = (case callback (StringValue raw) \<lparr>content = raw, deliveryTag = t\<rparr> of
               Inr u \<Rightarrow> [Ack \<lparr>content = raw, deliveryTag = t\<rparr>]
             | Inl e \<Rightarrow> [Nack \<lparr>content = raw, deliveryTag = t\<rparr> False True]))
   \<and> message_content stringify_integer (OtherValue i) = Inr (show_int i)
   \<and> decode_content parse_integer (show_int i) = OtherValue i"
proof (intro conjI impI)
  show "message_content stringify_integer (OtherValue i) = Inr (show_int i)"
    by (simp add: message_content_def stringify_integer_def)
  show "decode_content parse_integer (show_int i) = OtherValue i"
    by (simp add: decode_content_def parse_stringify_integer)
next
  assume a: "stringify j = Some bytes \<and> parse bytes = Some (OtherValue j)"
  then show mc: "message_content stringify (OtherValue j) = Inr bytes"
    by (simp add: message_content_def)
  from a show "decode_content parse bytes = OtherValue j"
    by (simp add: decode_content_def)
  from a show "on_message parse callback (Some \<lparr>content = bytes, deliveryTag = t\<rparr>)
         = (case callback (OtherValue j) \<lparr>content = bytes, deliveryTag = t\<rparr> of
              Inr u \<Rightarrow> [Ack \<lparr>content = bytes, deliveryTag = t\<rparr>]
            | Inl e \<Rightarrow> [Nack \<lparr>content = bytes, deliveryTag = t\<rparr> False True])"
    by (simp add: on_message_def decode_content_def)
  assume c: "truthy (channel sv)"
  from publish_sends(1) [OF c mc] show "fst (publishToQueue stringify sv calls q (OtherValue j)) = Inr True" .
  from publish_sends(2) [OF c mc, of calls q]
  show "last (snd (snd (publishToQueue stringify sv calls q (OtherValue j)))) = SendToQueue q bytes"
    by auto
next
  show mc: "message_content stringify (StringValue s) = Inr s"
    by (simp add: message_content_def)
  assume c: "truthy (channel sv)"
  from publish_sends(1) [OF c mc] show "fst (publishToQueue stringify sv calls q (StringValue s)) = Inr True" .
  from publish_sends(2) [OF c mc, of calls q]
  show "last (snd (snd (publishToQueue stringify sv calls q (StringValue s)))) = SendToQueue q s"
    by auto
next
  assume a: "parse raw = None"
  then show "decode_content parse raw = StringValue raw"
    by (simp add: decode_content_def)
  from a show "on_message parse callback (Some \<lparr>content = raw, deliveryTag = t\<rparr>)
          = (case callback (StringValue raw) \<lparr>content = raw, deliveryTag = t\<rparr> of
               Inr u \<Rightarrow> [Ack \<lparr>content = raw, deliveryTag = t\<rparr>]
             | Inl e \<Rightarrow> [Nack \<lparr>content = raw, deliveryTag = t\<rparr> False True])"
    by (simp add: on_message_def decode_content_def)
qed

theorem publish_consume_round_trip_witness:
  "stringify_integer 3001 = Some ''3001'' \<and> parse_integer ''3001'' = Some (OtherValue 3001)
   \<and> truthy (channel (new_BaseService [(''channel'', JRef ''channel'')]))
   \<and> snd (snd (publishToQueue stringify_integer (new_BaseService [(''channel'', JRef ''channel'')])
                 [] ''otp.requests'' (OtherValue 3001)))
      = [AssertQueue ''otp.requests'', SendToQueue ''otp.requests'' ''3001'']
   \<and> decode_content parse_integer ''3001'' = OtherValue 3001
   \<and> snd (snd (publishToQueue stringify_integer (new_BaseService [(''channel'', JRef ''channel'')])
                 [] ''otp.requests'' (StringValue ''hello'')))
      = [AssertQueue ''otp.requests'', SendToQueue ''otp.requests'' ''hello'']
   \<and> parse_integer ''hello'' = None
   \<and> decode_content parse_integer ''hello'' = StringValue ''hello''"
proof -
  let ?sv = "new_BaseService [(''channel'', JRef ''channel'')]"
  have enc: "stringify_integer 3001 = Some ''3001''"
    by (simp add: stringify_integer_def show_int_def show_nat.simps)
  have dec: "parse_integer ''3001'' = Some (OtherValue 3001)"
    using parse_stringify_integer [of 3001] by (simp add: show_int_def show_nat.simps)
  have ch: "truthy (channel ?sv)"
    by (simp add: new_BaseService_def get_prop_def)
  have bad: "parse_integer ''hello'' = None"
    by (simp add: parse_integer_def)
  note T = publish_consume_round_trip [where stringify = stringify_integer and parse = parse_integer
      and j = 3001 and bytes = "''3001''" and sv = ?sv and calls = "[]" and q = "''otp.requests''"
      and s = "''hello''" and raw = "''hello''"]
  from T enc dec have d: "decode_content parse_integer ''3001'' = OtherValue 3001"
    by blast
  from T bad have r: "decode_content parse_integer ''hello'' = StringValue ''hello''"
    by blast
  have p1: "snd (snd (publishToQueue stringify_integer ?sv [] ''otp.requests'' (OtherValue 3001)))
      = [AssertQueue ''otp.requests'', SendToQueue ''otp.requests'' ''3001'']"
    by (simp add: publishToQueue_def registerQueue_def message_content_def enc new_BaseService_def
          get_prop_def object_prototype_keys_def js_or_def Let_def)
  have p2: "snd (snd (publishToQueue stringify_integer ?sv [] ''otp.requests'' (StringValue ''hello'')))
      = [AssertQueue ''otp.requests'', SendToQueue ''otp.requests'' ''hello'']"
    by (simp add: publishToQueue_def registerQueue_def message_content_def new_BaseService_def
          get_prop_def object_prototype_keys_def js_or_def Let_def)
  from enc dec ch bad d r p1 p2 show ?thesis by simp
qed

end
